theory Spec2Isabelle
  imports Main "HOL-Library.Multiset"
begin

section \<open>Python strings\<close>

text \<open>
  A Python \<open>str\<close> is a sequence of Unicode code points, so it is modelled as a list of
  natural numbers. ASCII literals of the source are written \<open>str ''...''\<close>, every other
  character by its code point.
\<close>

type_synonym ustr = "nat list"

definition str :: "string \<Rightarrow> ustr" where
  "str s = map of_char s"

text \<open>
  \<open>str.strip()\<close> and \<open>str.split()\<close> without argument work on the characters for which
  CPython's \<open>Py_UNICODE_ISSPACE\<close> holds.
\<close>

definition isspace :: "nat \<Rightarrow> bool" where
  "isspace c \<longleftrightarrow>
     (9 \<le> c \<and> c \<le> 13) \<or> (28 \<le> c \<and> c \<le> 32) \<or> c = 0x85 \<or> c = 0xA0 \<or> c = 0x1680 \<or>
     (0x2000 \<le> c \<and> c \<le> 0x200A) \<or> c = 0x2028 \<or> c = 0x2029 \<or> c = 0x202F \<or>
     c = 0x205F \<or> c = 0x3000"

definition strip :: "ustr \<Rightarrow> ustr" where
  "strip s = rev (dropWhile isspace (rev (dropWhile isspace s)))"

definition startswith :: "ustr \<Rightarrow> ustr \<Rightarrow> bool" where
  "startswith s p \<longleftrightarrow> take (length p) s = p"

text \<open>\<open>line.split()\<close>: the maximal runs of non-whitespace characters, in order.\<close>

fun split_ws :: "ustr \<Rightarrow> ustr \<Rightarrow> ustr list" where
  "split_ws cur [] = (if cur = [] then [] else [cur])"
| "split_ws cur (c # cs) =
     (if isspace c then (if cur = [] then split_ws [] cs else cur # split_ws [] cs)
      else split_ws (cur @ [c]) cs)"

definition py_split :: "ustr \<Rightarrow> ustr list" where
  "py_split s = split_ws [] s"

text \<open>\<open>sep.join(words)\<close>.\<close>

fun join :: "ustr \<Rightarrow> ustr list \<Rightarrow> ustr" where
  "join sep [] = []"
| "join sep [w] = w"
| "join sep (w # v # ws) = w @ sep @ join sep (v # ws)"

text \<open>
  \<open>s.split(sep, 1)\<close> for a non-empty separator that occurs in \<open>s\<close>: the text before the first
  occurrence and the text after it; \<open>None\<close> when \<open>sep in s\<close> is false.
\<close>

fun split_once :: "ustr \<Rightarrow> ustr \<Rightarrow> (ustr \<times> ustr) option" where
  "split_once sep [] = None"
| "split_once sep (c # cs) =
     (if startswith (c # cs) sep then Some ([], drop (length sep) (c # cs))
      else (case split_once sep cs of
              None \<Rightarrow> None
            | Some (before, after) \<Rightarrow> Some (c # before, after)))"

section \<open>GlitchChantGenerator: the decoration of the fusion\<close>

definition glitch_symbols :: "ustr list" where
  "glitch_symbols =
     [[0x263F], [0x2604], [0x26A1], [0x25CA], [0x221E], [0x25B3], [0x2606], [0x25C8]]"

text \<open>
  The body of the \<open>for i, line in enumerate(glitch_content)\<close> loop of
  \<open>_create_glitched_fusion\<close>: the string appended to \<open>processed_content\<close>.
  \<open>(-i) % 8\<close> is computed on Python's integers.
\<close>

definition glitch_effect :: "nat \<Rightarrow> ustr \<Rightarrow> ustr" where
  "glitch_effect i line =
     (if i mod 4 = 0 then
        (let symbol = glitch_symbols ! (i mod length glitch_symbols)
         in symbol @ str '' '' @ line @ str '' '' @ symbol)
      else if i mod 4 = 1 then
        (let symbols = concat (map (\<lambda>j. glitch_symbols ! (j mod length glitch_symbols))
                                  [0 ..< i mod 3 + 1])
         in symbols @ str '' '' @ line)
      else if i mod 4 = 2 then
        (let symbol = glitch_symbols ! nat ((- int i) mod int (length glitch_symbols))
         in line @ str '' '' @ symbol)
      else
        (let words = py_split line
         in if length words > 2 then
              (let mid = length words div 2;
                   symbol = glitch_symbols ! (i mod length glitch_symbols)
               in join (str '' '') (take mid words @ [symbol] @ drop mid words))
            else line))"

fun glitch_loop :: "ustr list \<Rightarrow> (nat \<times> ustr) list \<Rightarrow> ustr list" where
  "glitch_loop processed_content [] = processed_content"
| "glitch_loop processed_content ((i, line) # rest) =
     glitch_loop (processed_content @ [glitch_effect i line]) rest"

definition apply_glitch_effects :: "ustr list \<Rightarrow> ustr list" where
  "apply_glitch_effects glitch_content = glitch_loop [] (enumerate 0 glitch_content)"


section \<open>Numbers and dates in text\<close>

text \<open>The decimal digits of a natural number, as \<open>str(n)\<close> and \<open>f"{n}"\<close> give them.\<close>

fun decimal :: "nat \<Rightarrow> ustr" where
  "decimal n = (if n < 10 then [48 + n] else decimal (n div 10) @ [48 + n mod 10])"

declare decimal.simps [simp del]

text \<open>\<open>f"{i:2d}"\<close> pads with spaces on the left to width 2; \<open>%m\<close>, \<open>%d\<close>, \<open>%H\<close>, \<open>%M\<close>,
  \<open>%S\<close> pad with zeros to width 2 and \<open>%Y\<close> to width 4.\<close>

definition rjust :: "nat \<Rightarrow> ustr \<Rightarrow> ustr" where
  "rjust width s = replicate (width - length s) 32 @ s"

definition zfill :: "nat \<Rightarrow> ustr \<Rightarrow> ustr" where
  "zfill width s = replicate (width - length s) 48 @ s"

record datetime =
  dt_year :: nat
  dt_month :: nat
  dt_day :: nat
  dt_hour :: nat
  dt_minute :: nat
  dt_second :: nat

text \<open>\<open>strftime('%Y-%m-%d %H:%M:%S')\<close>.\<close>

definition strftime :: "datetime \<Rightarrow> ustr" where
  "strftime t =
     zfill 4 (decimal (dt_year t)) @ str ''-'' @ zfill 2 (decimal (dt_month t)) @ str ''-'' @
     zfill 2 (decimal (dt_day t)) @ str '' '' @ zfill 2 (decimal (dt_hour t)) @ str '':'' @
     zfill 2 (decimal (dt_minute t)) @ str '':'' @ zfill 2 (decimal (dt_second t))"

section \<open>The loaded document and Python's dynamic operations on it\<close>

text \<open>
  What \<open>json.load\<close> returns: \<open>None\<close>, a bool, an int, a str, a list or a dict with string
  keys (the items in iteration order). JSON numbers with a fraction or an exponent are
  outside this model.
\<close>

datatype json =
    JNull
  | JBool bool
  | JInt int
  | JStr ustr
  | JList "json list"
  | JDict "(ustr \<times> json) list"

datatype exn = AttributeError | TypeError | OSError | UnicodeError

text \<open>
  The parts of the Python runtime that the program consults and that are tables or
  algorithms of the interpreter: which code points \<open>str.isdigit\<close> accepts (the Unicode
  character database), the text that formatting gives for a list or a dict, and
  \<open>str.lower\<close>.
\<close>

record runtime =
  isdigit_cp :: "nat \<Rightarrow> bool"
  repr_container :: "json \<Rightarrow> ustr"
  str_lower :: "ustr \<Rightarrow> ustr"

definition py_isdigit :: "runtime \<Rightarrow> ustr \<Rightarrow> bool" where
  "py_isdigit rt s \<longleftrightarrow> s \<noteq> [] \<and> list_all (isdigit_cp rt) s"

text \<open>\<open>f"{v}"\<close>.\<close>

definition py_format :: "runtime \<Rightarrow> json \<Rightarrow> ustr" where
  "py_format rt v =
     (case v of
        JStr s \<Rightarrow> s
      | JInt n \<Rightarrow> (if n < 0 then str ''-'' @ decimal (nat (- n)) else decimal (nat n))
      | JBool b \<Rightarrow> (if b then str ''True'' else str ''False'')
      | JNull \<Rightarrow> str ''None''
      | JList xs \<Rightarrow> repr_container rt v
      | JDict kv \<Rightarrow> repr_container rt v)"

text \<open>Truth value of an object, as \<open>if not data\<close> and \<open>if archetype\<close> test it.\<close>

definition truthy :: "json \<Rightarrow> bool" where
  "truthy v =
     (case v of
        JNull \<Rightarrow> False
      | JBool b \<Rightarrow> b
      | JInt n \<Rightarrow> n \<noteq> 0
      | JStr s \<Rightarrow> s \<noteq> []
      | JList xs \<Rightarrow> xs \<noteq> []
      | JDict kv \<Rightarrow> kv \<noteq> [])"

text \<open>\<open>obj.get(key, default)\<close>: only a dict has the method.\<close>

definition py_get :: "json \<Rightarrow> ustr \<Rightarrow> json \<Rightarrow> exn + json" where
  "py_get obj key dflt =
     (case obj of
        JDict kv \<Rightarrow> (case map_of kv key of None \<Rightarrow> Inr dflt | Some v \<Rightarrow> Inr v)
      | _ \<Rightarrow> Inl AttributeError)"

text \<open>Iterating an object, as \<open>list.extend\<close> and \<open>for\<close> do: a list gives its elements, a str
  its characters, a dict its keys; nothing else is iterable.\<close>

definition py_iter :: "json \<Rightarrow> exn + json list" where
  "py_iter v =
     (case v of
        JList xs \<Rightarrow> Inr xs
      | JStr s \<Rightarrow> Inr (map (\<lambda>c. JStr [c]) s)
      | JDict kv \<Rightarrow> Inr (map (\<lambda>(k, _). JStr k) kv)
      | _ \<Rightarrow> Inl TypeError)"

text \<open>Membership in a \<open>set\<close> hashes the object (lists and dicts are unhashable) and compares
  with \<open>==\<close>, under which \<open>True == 1\<close> and \<open>False == 0\<close>.\<close>

definition hashable :: "json \<Rightarrow> bool" where
  "hashable v = (case v of JList xs \<Rightarrow> False | JDict kv \<Rightarrow> False | _ \<Rightarrow> True)"

definition py_eq :: "json \<Rightarrow> json \<Rightarrow> bool" where
  "py_eq a b =
     (case (a, b) of
        (JStr s, JStr t) \<Rightarrow> s = t
      | (JNull, JNull) \<Rightarrow> True
      | (JInt m, JInt n) \<Rightarrow> m = n
      | (JBool p, JBool q) \<Rightarrow> p = q
      | (JBool p, JInt n) \<Rightarrow> n = (if p then 1 else 0)
      | (JInt n, JBool p) \<Rightarrow> n = (if p then 1 else 0)
      | _ \<Rightarrow> False)"

section \<open>SymbolExtractor and MantraExtractor: gathering\<close>

text \<open>The loop of \<open>_gather_all_symbols\<close> that removes duplicates: \<open>unique_symbols\<close>, the
  \<open>seen\<close> set and the symbols still to visit.\<close>

fun unique_loop :: "json list \<Rightarrow> json list \<Rightarrow> json list \<Rightarrow> exn + json list" where
  "unique_loop unique_symbols seen [] = Inr unique_symbols"
| "unique_loop unique_symbols seen (symbol # rest) =
     (if \<not> hashable symbol then Inl TypeError
      else if \<not> list_ex (py_eq symbol) seen
        then unique_loop (unique_symbols @ [symbol]) (symbol # seen) rest
      else unique_loop unique_symbols seen rest)"

definition gather_all_symbols :: "json \<Rightarrow> exn + json list" where
  "gather_all_symbols data =
     (case py_get data (str ''symbolic_analysis'') (JDict []) of
        Inl e \<Rightarrow> Inl e
      | Inr symbolic_analysis \<Rightarrow>
     (case py_get symbolic_analysis (str ''symbols'') (JList []) of
        Inl e \<Rightarrow> Inl e
      | Inr symbols \<Rightarrow>
     (case py_iter symbols of
        Inl e \<Rightarrow> Inl e
      | Inr all_symbols \<Rightarrow>
     (case py_get symbolic_analysis (str ''aesthetic_techniques'') (JList []) of
        Inl e \<Rightarrow> Inl e
      | Inr aesthetic_techniques \<Rightarrow>
     (case py_iter aesthetic_techniques of
        Inl e \<Rightarrow> Inl e
      | Inr extra \<Rightarrow> unique_loop [] [] (all_symbols @ extra))))))"

definition gather_all_mantras :: "runtime \<Rightarrow> json \<Rightarrow> exn + json list" where
  "gather_all_mantras rt data =
     (case py_get data (str ''narrative_structures'') (JDict []) of
        Inl e \<Rightarrow> Inl e
      | Inr narrative \<Rightarrow>
     (case py_get narrative (str ''mantras'') (JList []) of
        Inl e \<Rightarrow> Inl e
      | Inr mantras \<Rightarrow>
     (case py_iter mantras of
        Inl e \<Rightarrow> Inl e
      | Inr all_mantras \<Rightarrow>
     (case py_get narrative (str ''archetype'') (JStr []) of
        Inl e \<Rightarrow> Inl e
      | Inr archetype \<Rightarrow>
     (let all_mantras2 =
            (if truthy archetype
             then all_mantras @ [JStr (str ''[ARCHETYPE] '' @ py_format rt archetype)]
             else all_mantras)
      in
     (case py_get narrative (str ''techniques'') (JList []) of
        Inl e \<Rightarrow> Inl e
      | Inr techniques \<Rightarrow>
     (case py_iter techniques of
        Inl e \<Rightarrow> Inl e
      | Inr ts \<Rightarrow>
          Inr (all_mantras2 @
               map (\<lambda>technique. JStr (str ''[TECHNIQUE] '' @ py_format rt technique)) ts))))))))"

text \<open>
  The order that "deduplicated, first-seen order preserved" asks for: the element at index
  \<open>i\<close> is kept exactly when it does not occur before index \<open>i\<close>.
\<close>

definition first_seen :: "'a list \<Rightarrow> 'a list" where
  "first_seen xs = map (\<lambda>i. xs ! i) (filter (\<lambda>i. xs ! i \<notin> set (take i xs)) [0 ..< length xs])"


section \<open>The world of one run\<close>

text \<open>
  The state that the program reads and writes.

  \<open>document\<close> is what \<open>load_json_data\<close> meets when it looks for the configuration file:
  no file, a file that cannot be read or parsed, a file that \<open>json.load\<close> turns into a
  value, or a path on which \<open>Path.exists\<close> itself raises \<open>OSError\<close> (\<open>stat\<close> fails with
  an error other than "no such file", as \<open>EACCES\<close>).

  \<open>files\<close> is the outputs directory, by file name (\<open>get_output_path\<close>): no entry when
  the file does not exist, a text file with its decoded contents, a file whose bytes are
  not UTF-8 (reading raises, writing replaces it), an entry that exists and cannot be
  opened, or a path that cannot be reached: \<open>Path.exists\<close> raises \<open>OSError\<close> on it (the
  outputs directory may not be searched, the name is too long) and so does \<open>open\<close>.

  \<open>log_file_opens\<close> and \<open>outputs_dir_ready\<close> say whether the constructor of \<open>LuxUtils\<close>
  can open \<open>fractura_debug.log\<close> and whether \<open>mkdir(exist_ok=True)\<close> on the outputs
  directory returns. \<open>now\<close> is what \<open>datetime.now()\<close> returns, \<open>rng\<close> the numbers that the
  random generator will deliver, and \<open>logged\<close> the messages that mark the course of a run,
  oldest first: the "Starting ..." line of each stage, the step, success and failure lines
  of the orchestrator, its opening and closing lines, and the usage line that \<open>main\<close>
  prints. The other log lines are left out.
\<close>

datatype fentry = Text ustr | Undecodable | Denied | Unreachable

datatype doc_src = NotFound | Invalid | Loaded json | Unsearchable

datatype stage = Symbols | Mantras | Chant

datatype log_event =
    Starting stage
  | Step stage
  | StepSucceeded stage
  | StepFailed stage
  | RitualBegin
  | RitualComplete
  | RitualPartial nat
  | Usage

record world =
  document :: doc_src
  files :: "string \<Rightarrow> fentry option"
  log_file_opens :: bool
  outputs_dir_ready :: bool
  now :: datetime
  rng :: "nat list"
  logged :: "log_event list"

definition log_info :: "log_event \<Rightarrow> world \<Rightarrow> world" where
  "log_info e w = w\<lparr>logged := logged w @ [e]\<rparr>"

text \<open>
  \<open>load_json_data\<close>: the calls of \<open>Path.exists\<close> in \<open>get_json_path\<close> and before the
  \<open>try\<close> are not guarded; whatever \<open>open\<close> and \<open>json.load\<close> raise is caught.
\<close>

definition load_json_data :: "world \<Rightarrow> exn + json option" where
  "load_json_data w =
     (case document w of
        Unsearchable \<Rightarrow> Inl OSError
      | NotFound \<Rightarrow> Inr None
      | Invalid \<Rightarrow> Inr None
      | Loaded data \<Rightarrow> Inr (Some data))"

section \<open>Writing a text file\<close>

text \<open>
  A file opened with \<open>encoding='utf-8'\<close> refuses a string with a surrogate code point:
  that \<open>write\<close> raises and the file keeps what the earlier calls wrote.
  \<open>write_all\<close> runs the \<open>f.write\<close> calls of a \<open>with open(..., 'w')\<close> block in order and
  returns the text of the file and whether every call returned.
\<close>

definition encodable :: "ustr \<Rightarrow> bool" where
  "encodable s \<longleftrightarrow> list_all (\<lambda>c. \<not> (0xD800 \<le> c \<and> c \<le> 0xDFFF)) s"

fun write_all :: "ustr \<Rightarrow> ustr list \<Rightarrow> ustr \<times> bool" where
  "write_all written [] = (written, True)"
| "write_all written (s # ss) =
     (if encodable s then write_all (written @ s) ss else (written, False))"

text \<open>
  The \<open>try: with open(output_file, 'w') ...: return True  except Exception: return False\<close>
  frame shared by the three \<open>_write_*_file\<close> methods, for the given \<open>f.write\<close> arguments.
\<close>

definition write_file :: "string \<Rightarrow> ustr list \<Rightarrow> world \<Rightarrow> bool \<times> world" where
  "write_file name chunks w =
     (case files w name of
        Some Denied \<Rightarrow> (False, w)
      | Some Unreachable \<Rightarrow> (False, w)
      | _ \<Rightarrow> (let (text, ok) = write_all [] chunks
              in (ok, w\<lparr>files := (files w)(name \<mapsto> Text text)\<rparr>)))"

definition nl :: ustr where
  "nl = [10]"

definition numbered_line :: "runtime \<Rightarrow> nat \<times> json \<Rightarrow> ustr" where
  "numbered_line rt = (\<lambda>(i, entry). rjust 2 (decimal i) @ str ''. '' @ py_format rt entry @ nl)"

definition generated_prefix :: ustr where
  "generated_prefix = str ''Extraction g'' @ [0xE9] @ str ''n'' @ [0xE9] @ str ''r'' @ [0xE9] @ str ''e''"

definition symbols_title :: ustr where
  "symbols_title = [0x1F52E] @ str '' Symboles analys'' @ [0xE9] @ str ''s dans FRACTURA.'' @
     [0x394] @ str ''02''"

definition mantras_title :: ustr where
  "mantras_title = [0x1F5DD, 0xFE0F] @ str '' Mantras extraits de FRACTURA.'' @
     [0x394] @ str ''02''"

definition write_symbols_file :: "runtime \<Rightarrow> json list \<Rightarrow> string \<Rightarrow> world \<Rightarrow> bool \<times> world" where
  "write_symbols_file rt symbols output_file w =
     write_file output_file
       ([symbols_title @ nl,
         replicate 50 61 @ nl @ nl,
         generated_prefix @ str '' le: '' @ strftime (now w) @ nl @ nl] @
        map (numbered_line rt) (enumerate 1 symbols) @
        [nl @ str ''--- Total: '' @ decimal (length symbols) @ str '' symboles ---'' @ nl]) w"

definition write_mantras_file :: "runtime \<Rightarrow> json list \<Rightarrow> string \<Rightarrow> world \<Rightarrow> bool \<times> world" where
  "write_mantras_file rt mantras output_file w =
     write_file output_file
       ([mantras_title @ nl,
         replicate 50 61 @ nl @ nl,
         generated_prefix @ str '' le: '' @ strftime (now w) @ nl @ nl] @
        map (numbered_line rt) (enumerate 1 mantras) @
        [nl @ str ''--- Total: '' @ decimal (length mantras) @ str '' '' @ [0xE9] @ str ''l'' @
           [0xE9] @ str ''ments narratifs ---'' @ nl]) w"

definition write_chant_file :: "ustr list \<Rightarrow> string \<Rightarrow> world \<Rightarrow> bool \<times> world" where
  "write_chant_file content output_file w =
     write_file output_file
       ([[0x1F50A] @ str '' CHANT GLITCH'' @ [0xC9] @ str '' SACR'' @ [0xC9] @ str '' '' @
           [0x2013] @ str '' FRACTURA.'' @ [0x394] @ str ''02'' @ nl,
         replicate 60 61 @ nl,
         str ''Par la Fracture vient la Vue'' @ nl,
         str ''Lux contre Spectaculum'' @ nl,
         replicate 60 61 @ nl @ nl,
         str ''G'' @ [0xE9] @ str ''n'' @ [0xE9] @ str ''r'' @ [0xE9] @ str '' le: '' @
           strftime (now w) @ nl,
         [0xC9] @ str ''l'' @ [0xE9] @ str ''ments fusionn'' @ [0xE9] @ str ''s: '' @
           decimal (length content) @ nl @ nl,
         str ''--- INVOCATION ---'' @ nl @ nl] @
        map (\<lambda>line. line @ nl) content @
        [nl @ str ''--- FIN DE L'' @ [39] @ str ''INVOCATION ---'' @ nl,
         str ''FRACTURA.'' @ [0x394] @ str ''02 // Luxcordia.EXE'' @ nl]) w"

section \<open>Reading a report back\<close>

text \<open>
  \<open>f.readlines()\<close> on a file opened in text mode: a line ends at \<open>\n\<close>, at \<open>\r\n\<close> or at a
  lone \<open>\r\<close>, each delivered as \<open>\n\<close>; the last line may lack a terminator.
\<close>

fun readlines_from :: "ustr \<Rightarrow> ustr \<Rightarrow> ustr list" where
  "readlines_from cur [] = (if cur = [] then [] else [cur])"
| "readlines_from cur [c] =
     (if c = 10 \<or> c = 13 then [cur @ [10]] else [cur @ [c]])"
| "readlines_from cur (c # d # cs) =
     (if c = 10 then (cur @ [10]) # readlines_from [] (d # cs)
      else if c = 13 then
        (if d = 10 then (cur @ [10]) # readlines_from [] cs
         else (cur @ [10]) # readlines_from [] (d # cs))
      else readlines_from (cur @ [c]) (d # cs))"

definition readlines :: "ustr \<Rightarrow> ustr list" where
  "readlines text = readlines_from [] text"

text \<open>\<open>open(file_path, 'r', encoding='utf-8')\<close> followed by \<open>f.readlines()\<close>.\<close>

definition open_readlines :: "world \<Rightarrow> string \<Rightarrow> exn + ustr list" where
  "open_readlines w name =
     (case files w name of
        None \<Rightarrow> Inl OSError
      | Some Denied \<Rightarrow> Inl OSError
      | Some Unreachable \<Rightarrow> Inl OSError
      | Some Undecodable \<Rightarrow> Inl UnicodeError
      | Some (Text text) \<Rightarrow> Inr (readlines text))"

text \<open>\<open>file_path.exists()\<close>: \<open>pathlib\<close> answers \<open>False\<close> when \<open>stat\<close> reports that there
  is no such file and passes every other \<open>OSError\<close> on to the caller.\<close>

definition path_exists :: "world \<Rightarrow> string \<Rightarrow> exn + bool" where
  "path_exists w name =
     (case files w name of
        None \<Rightarrow> Inr False
      | Some Unreachable \<Rightarrow> Inl OSError
      | Some entry \<Rightarrow> Inr True)"

text \<open>The body of the \<open>for line in lines\<close> loop of \<open>_load_extracted_content\<close>: what it appends
  to \<open>content_lines\<close>, if anything.\<close>

definition content_of_line :: "runtime \<Rightarrow> ustr \<Rightarrow> ustr option" where
  "content_of_line rt raw =
     (let line = strip raw
      in if line \<noteq> [] \<and>
            \<not> startswith line [0x1F52E] \<and>
            \<not> startswith line [0x1F5DD, 0xFE0F] \<and>
            \<not> startswith line (str ''='') \<and>
            \<not> startswith line (str ''---'') \<and>
            \<not> startswith line generated_prefix \<and>
            \<not> startswith line (str ''Total:'')
         then
           (case split_once (str ''. '') line of
              Some (before, after) \<Rightarrow>
                if py_isdigit rt (strip before) then Some after else Some line
            | None \<Rightarrow> Some line)
         else None)"

fun content_loop :: "runtime \<Rightarrow> ustr list \<Rightarrow> ustr list \<Rightarrow> ustr list" where
  "content_loop rt content_lines [] = content_lines"
| "content_loop rt content_lines (line # lines) =
     (case content_of_line rt line of
        Some c \<Rightarrow> content_loop rt (content_lines @ [c]) lines
      | None \<Rightarrow> content_loop rt content_lines lines)"

text \<open>
  \<open>_load_extracted_content\<close>: the existence test stands before the \<open>try\<close>, so what it
  raises leaves the method; what \<open>open\<close> and \<open>readlines\<close> raise is caught.
\<close>

definition load_extracted_content :: "runtime \<Rightarrow> world \<Rightarrow> string \<Rightarrow> exn + ustr list" where
  "load_extracted_content rt w filename =
     (case path_exists w filename of
        Inl e \<Rightarrow> Inl e
      | Inr found \<Rightarrow>
          if \<not> found then Inr []
          else (case open_readlines w filename of
                  Inl e \<Rightarrow> Inr []
                | Inr lines \<Rightarrow> Inr (content_loop rt [] lines)))"

section \<open>Shuffling and the fusion\<close>

text \<open>
  \<open>random.shuffle\<close>: for \<open>i\<close> from \<open>len(x) - 1\<close> down to 1, draw \<open>j\<close> below \<open>i + 1\<close> and
  exchange \<open>x[i]\<close> and \<open>x[j]\<close>. A draw takes the next number of the generator, reduced into
  the range.
\<close>

definition randbelow :: "nat \<Rightarrow> nat list \<Rightarrow> nat \<times> nat list" where
  "randbelow n rs = (case rs of [] \<Rightarrow> (0, []) | r # rs' \<Rightarrow> (r mod n, rs'))"

fun shuffle_from :: "nat \<Rightarrow> nat list \<Rightarrow> 'a list \<Rightarrow> 'a list \<times> nat list" where
  "shuffle_from 0 rs x = (x, rs)"
| "shuffle_from (Suc k) rs x =
     (let (j, rs') = randbelow (Suc k + 1) rs
      in shuffle_from k rs' (x[Suc k := x ! j, j := x ! Suc k]))"

definition shuffle :: "nat list \<Rightarrow> 'a list \<Rightarrow> 'a list \<times> nat list" where
  "shuffle rs x = shuffle_from (length x - 1) rs x"

definition create_glitched_fusion :: "nat list \<Rightarrow> ustr list \<Rightarrow> ustr list \<times> nat list" where
  "create_glitched_fusion rs content =
     (if content = [] then ([], rs)
      else (let (glitch_content, rs') = shuffle rs content
            in (apply_glitch_effects glitch_content, rs')))"


section \<open>The three stages\<close>

text \<open>
  A stage returns \<open>Inr b\<close> when the Python method returns the bool \<open>b\<close> and \<open>Inl e\<close> when
  the exception \<open>e\<close> leaves it.
\<close>

definition extract_symbols :: "runtime \<Rightarrow> world \<Rightarrow> (exn + bool) \<times> world" where
  "extract_symbols rt w0 =
     (let w = log_info (Starting Symbols) w0
      in case load_json_data w of
           Inl e \<Rightarrow> (Inl e, w)
         | Inr None \<Rightarrow> (Inr False, w)
         | Inr (Some data) \<Rightarrow>
             if \<not> truthy data then (Inr False, w)
             else (case gather_all_symbols data of
                     Inl e \<Rightarrow> (Inl e, w)
                   | Inr symbols \<Rightarrow>
                       if symbols = [] then (Inr False, w)
                       else (let (ok, w') = write_symbols_file rt symbols ''symboles_extraits.txt'' w
                             in (Inr ok, w'))))"

definition extract_mantras :: "runtime \<Rightarrow> world \<Rightarrow> (exn + bool) \<times> world" where
  "extract_mantras rt w0 =
     (let w = log_info (Starting Mantras) w0
      in case load_json_data w of
           Inl e \<Rightarrow> (Inl e, w)
         | Inr None \<Rightarrow> (Inr False, w)
         | Inr (Some data) \<Rightarrow>
             if \<not> truthy data then (Inr False, w)
             else (case gather_all_mantras rt data of
                     Inl e \<Rightarrow> (Inl e, w)
                   | Inr mantras \<Rightarrow>
                       if mantras = [] then (Inr False, w)
                       else (let (ok, w') = write_mantras_file rt mantras ''mantras_extraits.txt'' w
                             in (Inr ok, w'))))"

definition generate_chant :: "runtime \<Rightarrow> world \<Rightarrow> (exn + bool) \<times> world" where
  "generate_chant rt w0 =
     (let w = log_info (Starting Chant) w0
      in case load_extracted_content rt w ''symboles_extraits.txt'' of
           Inl e \<Rightarrow> (Inl e, w)
         | Inr symbols_content \<Rightarrow>
      (case load_extracted_content rt w ''mantras_extraits.txt'' of
           Inl e \<Rightarrow> (Inl e, w)
         | Inr mantras_content \<Rightarrow>
             if symbols_content = [] \<and> mantras_content = [] then (Inr False, w)
             else (let (glitched_content, rs') =
                         create_glitched_fusion (rng w) (symbols_content @ mantras_content);
                       (ok, w') = write_chant_file glitched_content ''chant_glitch_fusion.txt''
                                    (w\<lparr>rng := rs'\<rparr>)
                   in (Inr ok, w'))))"

section \<open>FracturaOrchestrator and the command line\<close>

definition step_result :: "stage \<Rightarrow> bool \<Rightarrow> world \<Rightarrow> world" where
  "step_result s ok w = log_info (if ok then StepSucceeded s else StepFailed s) w"

definition run_complete_ritual :: "runtime \<Rightarrow> world \<Rightarrow> (exn + bool) \<times> world" where
  "run_complete_ritual rt w0 =
     (let total_steps = 3::nat
      in case extract_symbols rt (log_info (Step Symbols) (log_info RitualBegin w0)) of
           (Inl e, w1) \<Rightarrow> (Inl e, w1)
         | (Inr ok1, w1) \<Rightarrow>
      (let count1 = (if ok1 then 0 + 1 else 0::nat)
       in case extract_mantras rt (log_info (Step Mantras) (step_result Symbols ok1 w1)) of
           (Inl e, w2) \<Rightarrow> (Inl e, w2)
         | (Inr ok2, w2) \<Rightarrow>
      (let count2 = (if ok2 then count1 + 1 else count1)
       in case generate_chant rt (log_info (Step Chant) (step_result Mantras ok2 w2)) of
           (Inl e, w3) \<Rightarrow> (Inl e, w3)
         | (Inr ok3, w3) \<Rightarrow>
      (let success_count = (if ok3 then count2 + 1 else count2);
           w4 = step_result Chant ok3 w3
       in if success_count = total_steps then (Inr True, log_info RitualComplete w4)
          else (Inr False, log_info (RitualPartial success_count) w4)))))"

text \<open>
  The constructor of \<open>LuxUtils\<close>: \<open>setup_logging\<close> opens the log file
  (\<open>logging.FileHandler\<close>) and \<open>ensure_directories\<close> calls \<open>mkdir(exist_ok=True)\<close> on the
  outputs directory; what they raise leaves the constructor. The constructor of
  \<open>FracturaOrchestrator\<close> builds a \<open>LuxUtils\<close> and the three stage objects.
\<close>

definition lux_utils_init :: "world \<Rightarrow> exn + unit" where
  "lux_utils_init w =
     (if \<not> log_file_opens w then Inl OSError
      else if \<not> outputs_dir_ready w then Inl OSError
      else Inr ())"

definition fractura_orchestrator_init :: "world \<Rightarrow> exn + unit" where
  "fractura_orchestrator_init w = lux_utils_init w"

text \<open>\<open>main\<close> for the argument vector \<open>sys.argv\<close>; it builds its objects outside any
  \<open>try\<close>.\<close>

definition discard :: "(exn + bool) \<times> world \<Rightarrow> (exn + unit) \<times> world" where
  "discard r = (case r of (Inl e, w) \<Rightarrow> (Inl e, w) | (Inr b, w) \<Rightarrow> (Inr (), w))"

definition main :: "runtime \<Rightarrow> ustr list \<Rightarrow> world \<Rightarrow> (exn + unit) \<times> world" where
  "main rt argv w =
     (if length argv > 1 then
        (let command = str_lower rt (argv ! 1)
         in case lux_utils_init w of
              Inl e \<Rightarrow> (Inl e, w)
            | Inr utils \<Rightarrow>
                if command = str ''symbols'' then discard (extract_symbols rt w)
                else if command = str ''mantras'' then discard (extract_mantras rt w)
                else if command = str ''chant'' then discard (generate_chant rt w)
                else if command = str ''ritual'' \<or> command = str ''all''
                  then (case fractura_orchestrator_init w of
                          Inl e \<Rightarrow> (Inl e, w)
                        | Inr orchestrator \<Rightarrow> discard (run_complete_ritual rt w))
                else (Inr (), log_info Usage w))
      else (case fractura_orchestrator_init w of
              Inl e \<Rightarrow> (Inl e, w)
            | Inr orchestrator \<Rightarrow> discard (run_complete_ritual rt w)))"

section \<open>The fusion on list objects\<close>

text \<open>
  Python lists are mutable objects and \<open>shuffle\<close> works in place. Here the list objects
  live in a store, a reference is an index into it, and a new object goes at its end.
  \<open>create_glitched_fusion_obj\<close> is \<open>_create_glitched_fusion\<close> on a reference \<open>content\<close>:
  it returns the reference of the list it returns. \<open>fusion_call_obj\<close> is the call
  \<open>self._create_glitched_fusion(symbols_content + mantras_content)\<close> of \<open>generate_chant\<close>,
  where \<open>+\<close> builds a new list.
\<close>

type_synonym store = "ustr list list"

definition new_list :: "ustr list \<Rightarrow> store \<Rightarrow> nat \<times> store" where
  "new_list v st = (length st, st @ [v])"

definition shuffle_obj :: "nat list \<Rightarrow> nat \<Rightarrow> store \<Rightarrow> store \<times> nat list" where
  "shuffle_obj rs r st = (let (x, rs') = shuffle rs (st ! r) in (st[r := x], rs'))"

fun glitch_loop_obj :: "nat \<Rightarrow> (nat \<times> ustr) list \<Rightarrow> store \<Rightarrow> store" where
  "glitch_loop_obj processed_content [] st = st"
| "glitch_loop_obj processed_content ((i, line) # rest) st =
     glitch_loop_obj processed_content rest
       (st[processed_content := st ! processed_content @ [glitch_effect i line]])"

definition create_glitched_fusion_obj ::
    "nat list \<Rightarrow> nat \<Rightarrow> store \<Rightarrow> (nat \<times> store) \<times> nat list" where
  "create_glitched_fusion_obj rs content st =
     (if st ! content = [] then (new_list [] st, rs)
      else (let (glitch_content, st1) = new_list (st ! content) st;
                (st2, rs') = shuffle_obj rs glitch_content st1;
                (processed_content, st3) = new_list [] st2
            in ((processed_content,
                 glitch_loop_obj processed_content (enumerate 0 (st3 ! glitch_content)) st3),
                rs')))"

definition fusion_call_obj ::
    "nat list \<Rightarrow> nat \<Rightarrow> nat \<Rightarrow> store \<Rightarrow> (nat \<times> nat \<times> store) \<times> nat list" where
  "fusion_call_obj rs symbols_content mantras_content st =
     (let (combined, st1) = new_list (st ! symbols_content @ st ! mantras_content) st;
          ((glitched_content, st2), rs') = create_glitched_fusion_obj rs combined st1
      in ((combined, glitched_content, st2), rs'))"

section \<open>Documents of the expected shape, and sample inputs\<close>

text \<open>
  The shape that the program expects of the document: an object whose
  \<open>symbolic_analysis\<close> and \<open>narrative_structures\<close> entries, if present, are objects; in them
  \<open>symbols\<close>, \<open>aesthetic_techniques\<close>, \<open>mantras\<close> and \<open>techniques\<close>, if present, are lists of
  strings and \<open>archetype\<close>, if present, is a string.
\<close>

definition is_str :: "json \<Rightarrow> bool" where
  "is_str v = (case v of JStr s \<Rightarrow> True | _ \<Rightarrow> False)"

definition is_str_list :: "json \<Rightarrow> bool" where
  "is_str_list v = (case v of JList xs \<Rightarrow> list_all is_str xs | _ \<Rightarrow> False)"

definition entry_ok :: "(ustr \<times> json) list \<Rightarrow> ustr \<Rightarrow> (json \<Rightarrow> bool) \<Rightarrow> bool" where
  "entry_ok kv key P = (case map_of kv key of None \<Rightarrow> True | Some v \<Rightarrow> P v)"

definition symbolic_ok :: "json \<Rightarrow> bool" where
  "symbolic_ok v =
     (case v of
        JDict kv \<Rightarrow> entry_ok kv (str ''symbols'') is_str_list \<and>
                    entry_ok kv (str ''aesthetic_techniques'') is_str_list
      | _ \<Rightarrow> False)"

definition narrative_ok :: "json \<Rightarrow> bool" where
  "narrative_ok v =
     (case v of
        JDict kv \<Rightarrow> entry_ok kv (str ''mantras'') is_str_list \<and>
                    entry_ok kv (str ''archetype'') is_str \<and>
                    entry_ok kv (str ''techniques'') is_str_list
      | _ \<Rightarrow> False)"

definition expected_shape :: "json \<Rightarrow> bool" where
  "expected_shape data =
     (case data of
        JDict kv \<Rightarrow> entry_ok kv (str ''symbolic_analysis'') symbolic_ok \<and>
                    entry_ok kv (str ''narrative_structures'') narrative_ok
      | _ \<Rightarrow> False)"

text \<open>
  The documents on which the two gather methods raise nothing. \<open>entry_or\<close> is what
  \<open>dict.get\<close> finds and \<open>elements\<close> what iterating gives. For the symbols: the document
  is an object, its \<open>symbolic_analysis\<close> (an absent one reads as the empty object) is an
  object, \<open>symbols\<close> and \<open>aesthetic_techniques\<close> (absent: the empty list) can be
  iterated, and none of their elements is a list or an object. For the mantras: the
  document is an object, its \<open>narrative_structures\<close> is an object, and \<open>mantras\<close> and
  \<open>techniques\<close> can be iterated.
\<close>

definition iterable :: "json \<Rightarrow> bool" where
  "iterable v = (case v of JList xs \<Rightarrow> True | JStr s \<Rightarrow> True | JDict kv \<Rightarrow> True | _ \<Rightarrow> False)"

definition elements :: "json \<Rightarrow> json list" where
  "elements v =
     (case v of
        JList xs \<Rightarrow> xs
      | JStr s \<Rightarrow> map (\<lambda>c. JStr [c]) s
      | JDict kv \<Rightarrow> map (\<lambda>(k, _). JStr k) kv
      | _ \<Rightarrow> [])"

definition entry_or :: "(ustr \<times> json) list \<Rightarrow> ustr \<Rightarrow> json \<Rightarrow> json" where
  "entry_or kv key dflt = (case map_of kv key of None \<Rightarrow> dflt | Some v \<Rightarrow> v)"

definition symbols_gatherable :: "json \<Rightarrow> bool" where
  "symbols_gatherable data =
     (case data of
        JDict kv \<Rightarrow>
          (case entry_or kv (str ''symbolic_analysis'') (JDict []) of
             JDict sect \<Rightarrow>
               iterable (entry_or sect (str ''symbols'') (JList [])) \<and>
               iterable (entry_or sect (str ''aesthetic_techniques'') (JList [])) \<and>
               list_all hashable (elements (entry_or sect (str ''symbols'') (JList []))) \<and>
               list_all hashable
                 (elements (entry_or sect (str ''aesthetic_techniques'') (JList [])))
           | _ \<Rightarrow> False)
      | _ \<Rightarrow> False)"

definition mantras_gatherable :: "json \<Rightarrow> bool" where
  "mantras_gatherable data =
     (case data of
        JDict kv \<Rightarrow>
          (case entry_or kv (str ''narrative_structures'') (JDict []) of
             JDict sect \<Rightarrow>
               iterable (entry_or sect (str ''mantras'') (JList [])) \<and>
               iterable (entry_or sect (str ''techniques'') (JList []))
           | _ \<Rightarrow> False)
      | _ \<Rightarrow> False)"

text \<open>A stage does not reach its gather method when no document is loaded or the document
  is falsy (\<open>if not data\<close>).\<close>

definition symbols_stage_ok :: "world \<Rightarrow> bool" where
  "symbols_stage_ok w =
     (case document w of
        Loaded data \<Rightarrow> \<not> truthy data \<or> symbols_gatherable data
      | _ \<Rightarrow> True)"

definition mantras_stage_ok :: "world \<Rightarrow> bool" where
  "mantras_stage_ok w =
     (case document w of
        Loaded data \<Rightarrow> \<not> truthy data \<or> mantras_gatherable data
      | _ \<Rightarrow> True)"

text \<open>The lines of the file of that name, as \<open>readlines\<close> gives them; none when there is
  no text to read.\<close>

definition file_lines :: "world \<Rightarrow> string \<Rightarrow> ustr list" where
  "file_lines w name = (case files w name of Some (Text text) \<Rightarrow> readlines text | _ \<Rightarrow> [])"

text \<open>A runtime that knows the ASCII digits only, and a world with no document and an
  empty outputs directory.\<close>

definition ascii_runtime :: runtime where
  "ascii_runtime =
     \<lparr>isdigit_cp = (\<lambda>c. 48 \<le> c \<and> c \<le> 57), repr_container = (\<lambda>v. []), str_lower = (\<lambda>s. s)\<rparr>"

definition empty_world :: world where
  "empty_world =
     \<lparr>document = NotFound, files = (\<lambda>name. None),
      log_file_opens = True, outputs_dir_ready = True,
      now = \<lparr>dt_year = 2024, dt_month = 1, dt_day = 2, dt_hour = 3, dt_minute = 4, dt_second = 5\<rparr>,
      rng = [], logged = []\<rparr>"

text \<open>The ASCII digits are digits for \<open>str.isdigit\<close>.\<close>

definition knows_ascii_digits :: "runtime \<Rightarrow> bool" where
  "knows_ascii_digits rt \<longleftrightarrow> list_all (isdigit_cp rt) [48 ..< 58]"

definition no_line_break :: "ustr \<Rightarrow> bool" where
  "no_line_break s \<longleftrightarrow> 10 \<notin> set s \<and> 13 \<notin> set s"

definition contains :: "ustr \<Rightarrow> ustr \<Rightarrow> bool" where
  "contains s sub \<longleftrightarrow> list_ex (\<lambda>i. startswith (drop i s) sub) [0 ..< length s + 1]"

text \<open>
  The marker prefixes that \<open>_load_extracted_content\<close> tests, and a line free of the
  artifacts of a report: non-empty, no whitespace at either end, no marker at its start.
\<close>

definition begins_with_marker :: "ustr \<Rightarrow> bool" where
  "begins_with_marker s \<longleftrightarrow>
     startswith s [0x1F52E] \<or> startswith s [0x1F5DD, 0xFE0F] \<or> startswith s (str ''='') \<or>
     startswith s (str ''---'') \<or> startswith s generated_prefix \<or> startswith s (str ''Total:'')"

definition clean_line :: "ustr \<Rightarrow> bool" where
  "clean_line s \<longleftrightarrow>
     s \<noteq> [] \<and> \<not> isspace (hd s) \<and> \<not> isspace (last s) \<and> \<not> begins_with_marker s"

definition report_world :: "ustr \<Rightarrow> world" where
  "report_world text = empty_world\<lparr>files := (\<lambda>name. Some (Text text))\<rparr>"

text \<open>
  A string that a report can carry: not empty, no whitespace at its end, no line
  terminator inside, and encodable in UTF-8.
\<close>

definition report_safe :: "ustr \<Rightarrow> bool" where
  "report_safe s \<longleftrightarrow> s \<noteq> [] \<and> \<not> isspace (last s) \<and> no_line_break s \<and> encodable s"

text \<open>
  The lines of a report, without their terminators, for a title and for the words of the
  footer after the count: what the \<open>f.write\<close> calls of \<open>_write_symbols_file\<close> and
  \<open>_write_mantras_file\<close> put into the file, cut at the line ends.
\<close>

definition report_lines :: "ustr \<Rightarrow> ustr \<Rightarrow> runtime \<Rightarrow> datetime \<Rightarrow> json list \<Rightarrow> ustr list" where
  "report_lines title tail rt t entries =
     [title, replicate 50 61, [], generated_prefix @ str '' le: '' @ strftime t, []] @
     map (\<lambda>(i, entry). rjust 2 (decimal i) @ str ''. '' @ py_format rt entry)
       (enumerate 1 entries) @
     [[], str ''--- Total: '' @ decimal (length entries) @ tail @ str '' ---'']"

text \<open>
  Three documents: \<open>{"symbolic_analysis": {"symbols": ["Phi", "Psi"]},
  "narrative_structures": {"mantras": ["om"]}}\<close>, of the expected shape;
  \<open>{"symbolic_analysis": {"symbols": 5}}\<close>, where \<open>symbols\<close> is a number; and
  \<open>{"symbolic_analysis": {"symbols": "ab", "aesthetic_techniques": [1, true, null]},
  "narrative_structures": {"mantras": [["x"]], "archetype": 7}}\<close>, which is not of the
  expected shape and on which nothing raises.
\<close>

definition sample_document :: json where
  "sample_document =
     JDict [(str ''symbolic_analysis'',
             JDict [(str ''symbols'', JList [JStr (str ''Phi''), JStr (str ''Psi'')])]),
            (str ''narrative_structures'',
             JDict [(str ''mantras'', JList [JStr (str ''om'')])])]"

definition mistyped_document :: json where
  "mistyped_document = JDict [(str ''symbolic_analysis'', JDict [(str ''symbols'', JInt 5)])]"

definition odd_document :: json where
  "odd_document =
     JDict [(str ''symbolic_analysis'',
             JDict [(str ''symbols'', JStr (str ''ab'')),
                    (str ''aesthetic_techniques'', JList [JInt 1, JBool True, JNull])]),
            (str ''narrative_structures'',
             JDict [(str ''mantras'', JList [JList [JStr (str ''x'')]]),
                    (str ''archetype'', JInt 7)])]"

section \<open>The decoration rules\<close>

lemma glitch_loop_map:
  "glitch_loop acc es = acc @ map (\<lambda>(i, line). glitch_effect i line) es"
  by (induction es arbitrary: acc) auto

lemma length_apply_glitch_effects: "length (apply_glitch_effects ls) = length ls"
  by (simp add: apply_glitch_effects_def glitch_loop_map)

lemma nth_apply_glitch_effects:
  "i < length ls \<Longrightarrow> apply_glitch_effects ls ! i = glitch_effect i (ls ! i)"
  by (simp add: apply_glitch_effects_def glitch_loop_map nth_enumerate_eq)

lemma length_glitch_symbols: "length glitch_symbols = 8"
  by (simp add: glitch_symbols_def)

lemma cluster_shape:
  "\<exists>cluster. concat (map (\<lambda>j. glitch_symbols ! (j mod 8)) [0 ..< n]) = concat cluster \<and>
     length cluster = n \<and> (\<forall>j < length cluster. cluster ! j = glitch_symbols ! (j mod 8))"
  by (rule exI[of _ "map (\<lambda>j. glitch_symbols ! (j mod 8)) [0 ..< n]"]) (simp del: upt_Suc)

text \<open>
  C2. The line that the decoration loop produces at the 0-based index \<open>i\<close> of the shuffled
  sequence \<open>ls\<close> is a function of \<open>i\<close> and \<open>ls ! i\<close> alone, by the rule that \<open>i mod 4\<close>
  selects: rule 0 wraps the line in the glyph at \<open>i mod 8\<close>; rule 1 puts before it a
  cluster of \<open>i mod 3 + 1\<close> glyphs, the \<open>j\<close>-th being the glyph at \<open>j mod 8\<close>, and a space;
  rule 2 appends a space and the glyph at \<open>(-i) mod 8\<close>; rule 3 splits the line at
  whitespace and, if there are more than 2 words, inserts the glyph at \<open>i mod 8\<close> at the
  position \<open>length words div 2\<close> and joins with single spaces, and otherwise keeps the line.
\<close>

theorem C2_decoration_rules:
  "i < length ls \<longrightarrow>
     (i mod 4 = 0 \<longrightarrow> apply_glitch_effects ls ! i =
        glitch_symbols ! (i mod 8) @ str '' '' @ ls ! i @ str '' '' @ glitch_symbols ! (i mod 8)) \<and>
     (i mod 4 = 1 \<longrightarrow> (\<exists>cluster. apply_glitch_effects ls ! i = concat cluster @ str '' '' @ ls ! i \<and>
        length cluster = i mod 3 + 1 \<and>
        (\<forall>j < length cluster. cluster ! j = glitch_symbols ! (j mod 8)))) \<and>
     (i mod 4 = 2 \<longrightarrow> apply_glitch_effects ls ! i =
        ls ! i @ str '' '' @ glitch_symbols ! nat ((- int i) mod 8)) \<and>
     (i mod 4 = 3 \<longrightarrow> (let words = py_split (ls ! i); mid = length words div 2 in
        apply_glitch_effects ls ! i =
          (if length words > 2
           then join (str '' '') (take mid words @ [glitch_symbols ! (i mod 8)] @ drop mid words)
           else ls ! i)))"
proof (intro impI conjI)
  assume i: "i < length ls"
  note eff = nth_apply_glitch_effects [OF i] glitch_effect_def length_glitch_symbols Let_def
  show "apply_glitch_effects ls ! i =
        glitch_symbols ! (i mod 8) @ str '' '' @ ls ! i @ str '' '' @ glitch_symbols ! (i mod 8)"
    if "i mod 4 = 0" using that by (simp add: eff)
  show "\<exists>cluster. apply_glitch_effects ls ! i = concat cluster @ str '' '' @ ls ! i \<and>
        length cluster = i mod 3 + 1 \<and>
        (\<forall>j < length cluster. cluster ! j = glitch_symbols ! (j mod 8))"
    if "i mod 4 = 1"
  proof -
    from cluster_shape [of "i mod 3 + 1"] obtain cluster where
      c: "concat (map (\<lambda>j. glitch_symbols ! (j mod 8)) [0 ..< i mod 3 + 1]) = concat cluster"
        "length cluster = i mod 3 + 1" "\<forall>j < length cluster. cluster ! j = glitch_symbols ! (j mod 8)"
      by blast
    have "apply_glitch_effects ls ! i = concat cluster @ str '' '' @ ls ! i"
      using that c(1) by (simp add: eff del: upt_Suc)
    with c(2,3) show ?thesis by blast
  qed
  show "apply_glitch_effects ls ! i = ls ! i @ str '' '' @ glitch_symbols ! nat ((- int i) mod 8)"
    if "i mod 4 = 2" using that by (simp add: eff)
  show "let words = py_split (ls ! i); mid = length words div 2 in
        apply_glitch_effects ls ! i =
          (if length words > 2
           then join (str '' '') (take mid words @ [glitch_symbols ! (i mod 8)] @ drop mid words)
           else ls ! i)"
    if "i mod 4 = 3" using that by (simp add: eff)
qed

lemma py_split_abc: "py_split (str ''a b c'') = [str ''a'', str ''b'', str ''c'']"
  by (simp add: py_split_def str_def isspace_def)

theorem C2_decoration_rules_witness:
  "apply_glitch_effects [str ''L0'', str ''L1'', str ''L2'', str ''a b c''] ! 0 =
     [0x263F] @ str '' L0 '' @ [0x263F] \<and>
   (\<exists>cluster. apply_glitch_effects [str ''L0'', str ''L1'', str ''L2'', str ''a b c''] ! 1 =
       concat cluster @ str '' L1'' \<and> length cluster = 1 mod 3 + 1 \<and>
       (\<forall>j < length cluster. cluster ! j = glitch_symbols ! (j mod 8))) \<and>
   apply_glitch_effects [str ''L0'', str ''L1'', str ''L2'', str ''a b c''] ! 2 =
     str ''L2 '' @ [0x2606] \<and>
   apply_glitch_effects [str ''L0'', str ''L1'', str ''L2'', str ''a b c''] ! 3 =
     str ''a '' @ [0x25CA] @ str '' b c''"
  using C2_decoration_rules [of 0 "[str ''L0'', str ''L1'', str ''L2'', str ''a b c'']"]
        C2_decoration_rules [of 1 "[str ''L0'', str ''L1'', str ''L2'', str ''a b c'']"]
        C2_decoration_rules [of 2 "[str ''L0'', str ''L1'', str ''L2'', str ''a b c'']"]
        C2_decoration_rules [of 3 "[str ''L0'', str ''L1'', str ''L2'', str ''a b c'']"]
  by (simp add: py_split_abc glitch_symbols_def) (simp add: str_def)

text \<open>The five-line example: wrap, cluster of two, trailing glyph, midpoint insertion, wrap.\<close>

lemma decoration_of_five_lines:
  "apply_glitch_effects [L0, L1, L2, L3, L4] =
     [[0x263F] @ str '' '' @ L0 @ str '' '' @ [0x263F],
      [0x263F, 0x2604] @ str '' '' @ L1,
      L2 @ str '' '' @ [0x2606],
      (if length (py_split L3) > 2
       then join (str '' '') (take (length (py_split L3) div 2) (py_split L3) @ [[0x25CA]] @
                               drop (length (py_split L3) div 2) (py_split L3))
       else L3),
      [0x221E] @ str '' '' @ L4 @ str '' '' @ [0x221E]]"
  by (simp add: apply_glitch_effects_def enumerate_eq_zip glitch_effect_def glitch_symbols_def
      Let_def upt_rec)

section \<open>Gathering symbols and mantras\<close>

lemma py_eq_JStr [simp]: "py_eq (JStr z) v \<longleftrightarrow> v = JStr z"
  by (cases v) (auto simp: py_eq_def)

lemma list_ex_py_eq_JStr: "list_ex (py_eq (JStr z)) seen \<longleftrightarrow> JStr z \<in> set seen"
  by (auto simp: list_ex_iff)

lemma upt_0_Suc: "[0 ..< Suc n] = 0 # map Suc [0 ..< n]"
  by (simp add: upt_conv_Cons map_Suc_upt del: upt_Suc)

lemma unique_loop_strs:
  "unique_loop u seen (map JStr zs) =
     Inr (u @ map JStr (map (\<lambda>i. zs ! i)
       (filter (\<lambda>i. JStr (zs ! i) \<notin> set seen \<and> zs ! i \<notin> set (take i zs)) [0 ..< length zs])))"
proof (induction zs arbitrary: u seen)
  case Nil
  then show ?case by simp
next
  case (Cons z zs)
  show ?case
  proof (cases "JStr z \<in> set seen")
    case True
    then have eq: "\<And>i. (JStr (zs ! i) \<notin> set seen \<and> zs ! i \<noteq> z \<and> zs ! i \<notin> set (take i zs)) =
        (JStr (zs ! i) \<notin> set seen \<and> zs ! i \<notin> set (take i zs))"
      by auto
    from True show ?thesis
      by (simp add: Cons.IH hashable_def list_ex_py_eq_JStr upt_0_Suc filter_map o_def eq
          del: upt_Suc)
  next
    case False
    then show ?thesis
      by (simp add: Cons.IH hashable_def list_ex_py_eq_JStr upt_0_Suc filter_map o_def conj_left_commute
          del: upt_Suc)
  qed
qed

lemma unique_loop_first_seen:
  "unique_loop [] [] (map JStr zs) = Inr (map JStr (first_seen zs))"
  by (simp add: unique_loop_strs first_seen_def)

lemma set_first_seen: "set (first_seen xs) = set xs"
proof
  show "set (first_seen xs) \<subseteq> set xs"
    by (auto simp: first_seen_def)
  show "set xs \<subseteq> set (first_seen xs)"
  proof
    fix x assume "x \<in> set xs"
    then have ex: "\<exists>i. i < length xs \<and> xs ! i = x" by (simp add: in_set_conv_nth)
    define i where "i = (LEAST i. i < length xs \<and> xs ! i = x)"
    have i: "i < length xs \<and> xs ! i = x"
      unfolding i_def using ex by (rule LeastI_ex)
    have "xs ! i \<notin> set (take i xs)"
    proof
      assume "xs ! i \<in> set (take i xs)"
      then obtain j where j: "j < i" "j < length xs" "xs ! j = xs ! i"
        by (auto simp: in_set_conv_nth)
      have "j < length xs \<and> xs ! j = x" using j i by simp
      then have "i \<le> j" unfolding i_def by (rule Least_le)
      with j show False by simp
    qed
    with i show "x \<in> set (first_seen xs)"
      by (auto simp: first_seen_def)
  qed
qed

lemma distinct_first_seen: "distinct (first_seen xs)"
proof -
  have "inj_on (\<lambda>i. xs ! i) {i. i < length xs \<and> xs ! i \<notin> set (take i xs)}"
  proof (rule inj_onI)
    fix i j
    assume a: "i \<in> {i. i < length xs \<and> xs ! i \<notin> set (take i xs)}"
      "j \<in> {i. i < length xs \<and> xs ! i \<notin> set (take i xs)}" "xs ! i = xs ! j"
    have *: "\<And>a b. a < b \<Longrightarrow> b < length xs \<Longrightarrow> xs ! a \<in> set (take b xs)"
      by (auto simp: in_set_conv_nth)
    show "i = j"
    proof (rule ccontr)
      assume "i \<noteq> j"
      then consider "i < j" | "j < i" by linarith
      then show False using a * [of i j] * [of j i] by cases auto
    qed
  qed
  then show ?thesis
    by (simp add: first_seen_def distinct_map)
qed

text \<open>
  C4. When the \<open>symbolic_analysis\<close> section holds the string lists \<open>symbols\<close> and
  \<open>aesthetic_techniques\<close> (an absent key reads as the empty list, an absent section as the
  empty object), \<open>_gather_all_symbols\<close> returns their concatenation, in that order, with
  every value kept at its first occurrence only: no value twice, every value present. For
  the symbols a, b, a, c and no techniques it returns a, b, c.
\<close>

theorem C4_gather_symbols:
  assumes "py_get data (str ''symbolic_analysis'') (JDict []) = Inr (JDict section)"
    and "py_get (JDict section) (str ''symbols'') (JList []) = Inr (JList (map JStr symbols))"
    and "py_get (JDict section) (str ''aesthetic_techniques'') (JList []) =
           Inr (JList (map JStr techniques))"
  shows "gather_all_symbols data = Inr (map JStr (first_seen (symbols @ techniques))) \<and>
         distinct (first_seen (symbols @ techniques)) \<and>
         set (first_seen (symbols @ techniques)) = set symbols \<union> set techniques \<and>
         gather_all_symbols
           (JDict [(str ''symbolic_analysis'',
                    JDict [(str ''symbols'',
                            JList [JStr (str ''a''), JStr (str ''b''), JStr (str ''a''),
                                   JStr (str ''c'')])])]) =
           Inr [JStr (str ''a''), JStr (str ''b''), JStr (str ''c'')]"
proof -
  have "gather_all_symbols data = Inr (map JStr (first_seen (symbols @ techniques)))"
    using assms unique_loop_first_seen [of "symbols @ techniques"]
    by (simp add: gather_all_symbols_def py_iter_def)
  moreover have "gather_all_symbols
           (JDict [(str ''symbolic_analysis'',
                    JDict [(str ''symbols'',
                            JList [JStr (str ''a''), JStr (str ''b''), JStr (str ''a''),
                                   JStr (str ''c'')])])]) =
           Inr [JStr (str ''a''), JStr (str ''b''), JStr (str ''c'')]"
    by (simp add: gather_all_symbols_def py_get_def py_iter_def str_def hashable_def)
  ultimately show ?thesis
    by (simp add: distinct_first_seen set_first_seen)
qed

text \<open>
  C5. \<open>_gather_all_mantras\<close> returns the \<open>mantras\<close> list as it is, duplicates included,
  then the line \<open>[ARCHETYPE] <value>\<close> exactly when the archetype string is non-empty (an
  absent archetype reads as the empty string), then one line \<open>[TECHNIQUE] <value>\<close> for each
  technique, in order. For the mantras x, x, the archetype "" and no techniques it returns
  x, x.
\<close>

theorem C5_gather_mantras:
  assumes "py_get data (str ''narrative_structures'') (JDict []) = Inr (JDict narrative)"
    and "py_get (JDict narrative) (str ''mantras'') (JList []) = Inr (JList mantras)"
    and "py_get (JDict narrative) (str ''archetype'') (JStr []) = Inr (JStr archetype)"
    and "py_get (JDict narrative) (str ''techniques'') (JList []) =
           Inr (JList (map JStr techniques))"
  shows "gather_all_mantras rt data =
           Inr (mantras @
                (if archetype \<noteq> [] then [JStr (str ''[ARCHETYPE] '' @ archetype)] else []) @
                map (\<lambda>t. JStr (str ''[TECHNIQUE] '' @ t)) techniques) \<and>
         gather_all_mantras rt
           (JDict [(str ''narrative_structures'',
                    JDict [(str ''mantras'', JList [JStr (str ''x''), JStr (str ''x'')]),
                           (str ''archetype'', JStr (str '''')),
                           (str ''techniques'', JList [])])]) =
           Inr [JStr (str ''x''), JStr (str ''x'')]"
proof -
  have "gather_all_mantras rt data =
           Inr (mantras @
                (if archetype \<noteq> [] then [JStr (str ''[ARCHETYPE] '' @ archetype)] else []) @
                map (\<lambda>t. JStr (str ''[TECHNIQUE] '' @ t)) techniques)"
    using assms
    by (simp add: gather_all_mantras_def py_iter_def truthy_def py_format_def o_def)
  moreover have "gather_all_mantras rt
           (JDict [(str ''narrative_structures'',
                    JDict [(str ''mantras'', JList [JStr (str ''x''), JStr (str ''x'')]),
                           (str ''archetype'', JStr (str '''')),
                           (str ''techniques'', JList [])])]) =
           Inr [JStr (str ''x''), JStr (str ''x'')]"
    by (simp add: gather_all_mantras_def py_get_def py_iter_def truthy_def str_def)
  ultimately show ?thesis by simp
qed

theorem C4_gather_symbols_witness:
  "py_get (JDict [(str ''symbolic_analysis'',
             JDict [(str ''symbols'', JList (map JStr [str ''a'', str ''b'', str ''a''])),
                    (str ''aesthetic_techniques'', JList (map JStr [str ''b'', str ''c'']))])])
      (str ''symbolic_analysis'') (JDict []) =
     Inr (JDict [(str ''symbols'', JList (map JStr [str ''a'', str ''b'', str ''a''])),
                 (str ''aesthetic_techniques'', JList (map JStr [str ''b'', str ''c'']))]) \<and>
   gather_all_symbols
     (JDict [(str ''symbolic_analysis'',
             JDict [(str ''symbols'', JList (map JStr [str ''a'', str ''b'', str ''a''])),
                    (str ''aesthetic_techniques'', JList (map JStr [str ''b'', str ''c'']))])]) =
     Inr (map JStr (first_seen ([str ''a'', str ''b'', str ''a''] @ [str ''b'', str ''c''])))"
  using C4_gather_symbols [of
      "JDict [(str ''symbolic_analysis'',
             JDict [(str ''symbols'', JList (map JStr [str ''a'', str ''b'', str ''a''])),
                    (str ''aesthetic_techniques'', JList (map JStr [str ''b'', str ''c'']))])]"
      "[(str ''symbols'', JList (map JStr [str ''a'', str ''b'', str ''a''])),
        (str ''aesthetic_techniques'', JList (map JStr [str ''b'', str ''c'']))]"
      "[str ''a'', str ''b'', str ''a'']" "[str ''b'', str ''c'']"]
  by (simp add: py_get_def str_def)

lemma first_seen_example:
  "first_seen ([str ''a'', str ''b'', str ''a''] @ [str ''b'', str ''c'']) =
     [str ''a'', str ''b'', str ''c'']"
  by (simp add: first_seen_def str_def upt_rec)

theorem C5_gather_mantras_witness:
  "py_get (JDict [(str ''narrative_structures'',
             JDict [(str ''mantras'', JList [JStr (str ''om''), JStr (str ''om'')]),
                    (str ''archetype'', JStr (str ''seer'')),
                    (str ''techniques'', JList (map JStr [str ''cut'', str ''loop'']))])])
      (str ''narrative_structures'') (JDict []) =
     Inr (JDict [(str ''mantras'', JList [JStr (str ''om''), JStr (str ''om'')]),
                 (str ''archetype'', JStr (str ''seer'')),
                 (str ''techniques'', JList (map JStr [str ''cut'', str ''loop'']))]) \<and>
   gather_all_mantras ascii_runtime
     (JDict [(str ''narrative_structures'',
             JDict [(str ''mantras'', JList [JStr (str ''om''), JStr (str ''om'')]),
                    (str ''archetype'', JStr (str ''seer'')),
                    (str ''techniques'', JList (map JStr [str ''cut'', str ''loop'']))])]) =
     Inr [JStr (str ''om''), JStr (str ''om''), JStr (str ''[ARCHETYPE] seer''),
          JStr (str ''[TECHNIQUE] cut''), JStr (str ''[TECHNIQUE] loop'')]"
  using C5_gather_mantras [of
      "JDict [(str ''narrative_structures'',
             JDict [(str ''mantras'', JList [JStr (str ''om''), JStr (str ''om'')]),
                    (str ''archetype'', JStr (str ''seer'')),
                    (str ''techniques'', JList (map JStr [str ''cut'', str ''loop'']))])]"
      "[(str ''mantras'', JList [JStr (str ''om''), JStr (str ''om'')]),
        (str ''archetype'', JStr (str ''seer'')),
        (str ''techniques'', JList (map JStr [str ''cut'', str ''loop'']))]"
      "[JStr (str ''om''), JStr (str ''om'')]" "str ''seer''" "[str ''cut'', str ''loop'']"
      ascii_runtime]
  by (simp add: py_get_def str_def)

section \<open>Shuffle and fusion\<close>

lemma randbelow_less: "0 < n \<Longrightarrow> fst (randbelow n rs) < n"
  by (cases rs) (simp_all add: randbelow_def)

lemma shuffle_from_perm:
  "k < length x \<Longrightarrow> mset (fst (shuffle_from k rs x)) = mset x"
proof (induction k arbitrary: rs x)
  case 0
  then show ?case by simp
next
  case (Suc k)
  obtain j rs' where r: "randbelow (Suc k + 1) rs = (j, rs')"
    by (cases "randbelow (Suc k + 1) rs")
  with randbelow_less [of "Suc k + 1" rs] have "j < Suc k + 1" by simp
  with Suc.prems have j: "j < length x" by simp
  have "mset (x[Suc k := x ! j, j := x ! Suc k]) = mset x"
    using Suc.prems j by (simp add: mset_swap)
  moreover have "k < length (x[Suc k := x ! j, j := x ! Suc k])"
    using Suc.prems by simp
  ultimately show ?case
    using Suc.IH [of "x[Suc k := x ! j, j := x ! Suc k]" rs'] r by simp
qed

lemma shuffle_perm: "mset (fst (shuffle rs x)) = mset x"
proof (cases x)
  case Nil
  then show ?thesis by (simp add: shuffle_def)
next
  case (Cons a as)
  then show ?thesis
    unfolding shuffle_def by (intro shuffle_from_perm) simp
qed

lemma length_shuffle: "length (fst (shuffle rs x)) = length x"
  using shuffle_perm [of rs x] by (metis size_mset)

lemma length_create_glitched_fusion:
  "length (fst (create_glitched_fusion rs content)) = length content"
  by (simp add: create_glitched_fusion_def split_beta length_apply_glitch_effects length_shuffle)

lemma shuffle_two: "fst (shuffle rs [a, b]) = [a, b] \<or> fst (shuffle rs [a, b]) = [b, a]"
proof -
  obtain j rs' where r: "randbelow (Suc (Suc 0)) rs = (j, rs')"
    by (cases "randbelow (Suc (Suc 0)) rs")
  with randbelow_less [of "Suc (Suc 0)" rs] have "j = 0 \<or> j = 1" by auto
  with r show ?thesis
    by (auto simp: shuffle_def)
qed

lemma apply_glitch_effects_two:
  "apply_glitch_effects [a, b] =
     [[0x263F] @ str '' '' @ a @ str '' '' @ [0x263F], [0x263F, 0x2604] @ str '' '' @ b]"
  by (simp add: apply_glitch_effects_def enumerate_eq_zip glitch_effect_def glitch_symbols_def
      Let_def upt_rec)

lemma contains_s1_wrapped:
  "contains ([0x263F] @ str '' '' @ str ''s1'' @ str '' '' @ [0x263F]) (str ''s1'')"
  "contains ([0x263F] @ str '' '' @ str ''m1'' @ str '' '' @ [0x263F]) (str ''m1'')"
  "contains ([0x263F, 0x2604] @ str '' '' @ str ''s1'') (str ''s1'')"
  "contains ([0x263F, 0x2604] @ str '' '' @ str ''m1'') (str ''m1'')"
  by (simp_all add: contains_def startswith_def str_def upt_rec)

text \<open>
  C3. For every state of the random generator: the fusion of two empty lists is empty; the
  fusion of \<open>["s1"]\<close> and \<open>["m1"]\<close> has exactly 2 lines, each of them non-empty and
  containing \<open>s1\<close> or \<open>m1\<close>, one line for each input; and the fusion of any two lists has
  as many lines as the two lists together.
\<close>

theorem C3_fusion_totality:
  "fst (create_glitched_fusion rs ([] @ [])) = [] \<and>
   length (fst (create_glitched_fusion rs ([str ''s1''] @ [str ''m1'']))) = 2 \<and>
   (\<forall>line \<in> set (fst (create_glitched_fusion rs ([str ''s1''] @ [str ''m1'']))).
      line \<noteq> [] \<and> (contains line (str ''s1'') \<or> contains line (str ''m1''))) \<and>
   (\<exists>line \<in> set (fst (create_glitched_fusion rs ([str ''s1''] @ [str ''m1'']))).
      contains line (str ''s1'')) \<and>
   (\<exists>line \<in> set (fst (create_glitched_fusion rs ([str ''s1''] @ [str ''m1'']))).
      contains line (str ''m1'')) \<and>
   length (fst (create_glitched_fusion rs (symbol_lines @ mantra_lines))) =
     length symbol_lines + length mantra_lines"
proof -
  have two: "fst (create_glitched_fusion rs [str ''s1'', str ''m1'']) =
        [[0x263F] @ str '' '' @ str ''s1'' @ str '' '' @ [0x263F],
         [0x263F, 0x2604] @ str '' '' @ str ''m1''] \<or>
      fst (create_glitched_fusion rs [str ''s1'', str ''m1'']) =
        [[0x263F] @ str '' '' @ str ''m1'' @ str '' '' @ [0x263F],
         [0x263F, 0x2604] @ str '' '' @ str ''s1'']"
    using shuffle_two [of rs "str ''s1''" "str ''m1''"]
    by (auto simp: create_glitched_fusion_def split_beta apply_glitch_effects_two)
  have "fst (create_glitched_fusion rs ([] @ [])) = []"
    by (simp add: create_glitched_fusion_def)
  moreover have "length (fst (create_glitched_fusion rs ([str ''s1''] @ [str ''m1'']))) = 2"
    by (simp add: length_create_glitched_fusion)
  moreover have "\<forall>line \<in> set (fst (create_glitched_fusion rs ([str ''s1''] @ [str ''m1'']))).
      line \<noteq> [] \<and> (contains line (str ''s1'') \<or> contains line (str ''m1''))"
    using two contains_s1_wrapped by auto
  moreover have "\<exists>line \<in> set (fst (create_glitched_fusion rs ([str ''s1''] @ [str ''m1'']))).
      contains line (str ''s1'')"
    using two contains_s1_wrapped by auto
  moreover have "\<exists>line \<in> set (fst (create_glitched_fusion rs ([str ''s1''] @ [str ''m1'']))).
      contains line (str ''m1'')"
    using two contains_s1_wrapped by auto
  moreover have "length (fst (create_glitched_fusion rs (symbol_lines @ mantra_lines))) =
     length symbol_lines + length mantra_lines"
    by (simp add: length_create_glitched_fusion)
  ultimately show ?thesis by blast
qed

theorem C3_fusion_totality_witness:
  "fst (create_glitched_fusion [0] [str ''s1'', str ''m1'']) =
     [[0x263F] @ str '' m1 '' @ [0x263F], [0x263F, 0x2604] @ str '' s1''] \<and>
   length (fst (create_glitched_fusion [0] ([str ''s1''] @ [str ''m1'']))) = 2 \<and>
   contains ([0x263F] @ str '' m1 '' @ [0x263F]) (str ''m1'') \<and>
   contains ([0x263F, 0x2604] @ str '' s1'') (str ''s1'')"
proof -
  have out: "fst (create_glitched_fusion [0] [str ''s1'', str ''m1'']) =
     [[0x263F] @ str '' m1 '' @ [0x263F], [0x263F, 0x2604] @ str '' s1'']"
    by (simp add: create_glitched_fusion_def shuffle_def randbelow_def apply_glitch_effects_two
        str_def)
  have c: "contains ([0x263F] @ str '' m1 '' @ [0x263F]) (str ''m1'')"
    "contains ([0x263F, 0x2604] @ str '' s1'') (str ''s1'')"
    by (simp_all add: contains_def startswith_def str_def upt_rec)
  from C3_fusion_totality [of "[0]"] out c show ?thesis by simp
qed

section \<open>The fusion leaves its argument alone\<close>

lemma glitch_loop_obj_eq:
  "p < length st \<Longrightarrow>
     glitch_loop_obj p es st = st[p := glitch_loop (st ! p) es]"
proof (induction es arbitrary: st)
  case Nil
  then show ?case by simp
next
  case (Cons e es)
  obtain i line where e: "e = (i, line)" by (cases e)
  from Cons.prems show ?case
    by (simp add: e Cons.IH)
qed

lemma create_glitched_fusion_obj_frame:
  assumes "content < length st"
  shows "\<exists>r st' rs'. create_glitched_fusion_obj rs content st = ((r, st'), rs') \<and>
           (\<forall>a < length st. st' ! a = st ! a) \<and> length st \<le> r \<and> r < length st' \<and>
           (st' ! r, rs') = create_glitched_fusion rs (st ! content)"
proof (cases "st ! content = []")
  case True
  then show ?thesis
    by (simp add: create_glitched_fusion_obj_def create_glitched_fusion_def new_list_def
        nth_append)
next
  case False
  obtain x rs' where sh: "shuffle rs (st ! content) = (x, rs')"
    by (cases "shuffle rs (st ! content)")
  let ?st3 = "(st @ [st ! content])[length st := x] @ [[]]"
  have call: "create_glitched_fusion_obj rs content st =
      ((Suc (length st), glitch_loop_obj (Suc (length st)) (enumerate 0 x) ?st3), rs')"
    using False sh
    by (simp add: create_glitched_fusion_obj_def new_list_def shuffle_obj_def nth_append)
  have loop: "glitch_loop_obj (Suc (length st)) (enumerate 0 x) ?st3 =
      ?st3[Suc (length st) := apply_glitch_effects x]"
    by (subst glitch_loop_obj_eq) (simp_all add: nth_append apply_glitch_effects_def)
  have old: "\<forall>a < length st. (?st3[Suc (length st) := apply_glitch_effects x]) ! a = st ! a"
    by (simp add: nth_append)
  have new: "(?st3[Suc (length st) := apply_glitch_effects x]) ! Suc (length st) =
      apply_glitch_effects x"
    by simp
  have "create_glitched_fusion rs (st ! content) = (apply_glitch_effects x, rs')"
    using False sh by (simp add: create_glitched_fusion_def)
  with call loop old new show ?thesis
    by simp
qed

text \<open>
  C9. \<open>_create_glitched_fusion\<close> changes no list that existed before the call: every object
  of the store is the same afterwards, the list it returns is a new object, and that list
  is the fusion of the contents of its argument. So after the call
  \<open>_create_glitched_fusion(symbols_content + mantras_content)\<close> of \<open>generate_chant\<close> the
  symbol list, the mantra list and their concatenation are unchanged.
\<close>

theorem C9_fusion_does_not_mutate:
  "(content < length st \<longrightarrow>
      (\<exists>r st' rs'. create_glitched_fusion_obj rs content st = ((r, st'), rs') \<and>
         (\<forall>a < length st. st' ! a = st ! a) \<and> length st \<le> r \<and> r < length st' \<and>
         (st' ! r, rs') = create_glitched_fusion rs (st ! content))) \<and>
   (symbols_content < length st \<and> mantras_content < length st \<longrightarrow>
      (\<exists>combined r st' rs'.
         fusion_call_obj rs symbols_content mantras_content st = ((combined, r, st'), rs') \<and>
         st' ! symbols_content = st ! symbols_content \<and>
         st' ! mantras_content = st ! mantras_content \<and>
         st' ! combined = st ! symbols_content @ st ! mantras_content \<and>
         (st' ! r, rs') =
           create_glitched_fusion rs (st ! symbols_content @ st ! mantras_content)))"
proof (intro conjI impI)
  assume "content < length st"
  then show "\<exists>r st' rs'. create_glitched_fusion_obj rs content st = ((r, st'), rs') \<and>
         (\<forall>a < length st. st' ! a = st ! a) \<and> length st \<le> r \<and> r < length st' \<and>
         (st' ! r, rs') = create_glitched_fusion rs (st ! content)"
    by (rule create_glitched_fusion_obj_frame)
next
  assume sm: "symbols_content < length st \<and> mantras_content < length st"
  let ?st1 = "st @ [st ! symbols_content @ st ! mantras_content]"
  have "length st < length ?st1" by simp
  from create_glitched_fusion_obj_frame [OF this, of rs]
  obtain r st' rs' where
    call: "create_glitched_fusion_obj rs (length st) ?st1 = ((r, st'), rs')" and
    frame: "\<forall>a < length ?st1. st' ! a = ?st1 ! a" and
    res: "(st' ! r, rs') = create_glitched_fusion rs (?st1 ! length st)"
    by blast
  have "fusion_call_obj rs symbols_content mantras_content st = ((length st, r, st'), rs')"
    using call by (simp add: fusion_call_obj_def new_list_def)
  moreover have "st' ! symbols_content = st ! symbols_content"
    "st' ! mantras_content = st ! mantras_content"
    "st' ! length st = st ! symbols_content @ st ! mantras_content"
    using frame sm by (simp_all add: nth_append)
  moreover have "(st' ! r, rs') =
      create_glitched_fusion rs (st ! symbols_content @ st ! mantras_content)"
    using res by simp
  ultimately show "\<exists>combined r st' rs'.
         fusion_call_obj rs symbols_content mantras_content st = ((combined, r, st'), rs') \<and>
         st' ! symbols_content = st ! symbols_content \<and>
         st' ! mantras_content = st ! mantras_content \<and>
         st' ! combined = st ! symbols_content @ st ! mantras_content \<and>
         (st' ! r, rs') =
           create_glitched_fusion rs (st ! symbols_content @ st ! mantras_content)"
    by blast
qed

theorem C9_fusion_does_not_mutate_witness:
  "(0::nat) < length [[str ''s1''], [str ''m1'']] \<and>
   (\<exists>combined r st' rs'.
      fusion_call_obj [0] 0 1 [[str ''s1''], [str ''m1'']] = ((combined, r, st'), rs') \<and>
      st' ! 0 = [str ''s1''] \<and> st' ! 1 = [str ''m1''] \<and>
      st' ! combined = [str ''s1'', str ''m1''])"
  using C9_fusion_does_not_mutate [of 0 "[[str ''s1''], [str ''m1'']]" "[0]" 0 1]
  by simp blast

text \<open>The copy matters: \<open>shuffle\<close> on the object itself reorders it in place.\<close>

lemma shuffle_obj_in_place:
  "fst (shuffle_obj [0] 0 [[str ''s1'', str ''m1'']]) = [[str ''m1'', str ''s1'']]"
  by (simp add: shuffle_obj_def shuffle_def randbelow_def)

section \<open>Reading a report that is not there\<close>

lemma logged_write_file: "logged (snd (write_file name chunks w)) = logged w"
  by (simp add: write_file_def split_beta split: option.splits fentry.splits)

lemma document_write_file: "document (snd (write_file name chunks w)) = document w"
  by (simp add: write_file_def split_beta split: option.splits fentry.splits)

text \<open>
  When the report file does not exist, or exists and cannot be opened or decoded,
  \<open>_load_extracted_content\<close> returns the empty list: the failure of \<open>open\<close> or
  \<open>readlines\<close> is caught inside it. With both report files in that state
  \<open>generate_chant\<close> returns \<open>False\<close> to its caller, without an exception.
\<close>

lemma missing_report_reads_empty:
  assumes "files w name = None \<or> files w name = Some Denied \<or> files w name = Some Undecodable"
  shows "load_extracted_content rt w name = Inr []"
  using assms by (auto simp: load_extracted_content_def path_exists_def open_readlines_def)

lemma generate_chant_nothing_to_read:
  assumes "files w ''symboles_extraits.txt'' \<in> {None, Some Denied, Some Undecodable}"
    and "files w ''mantras_extraits.txt'' \<in> {None, Some Denied, Some Undecodable}"
  shows "fst (generate_chant rt w) = Inr False"
proof -
  have "load_extracted_content rt (log_info (Starting Chant) w) ''symboles_extraits.txt'' = Inr []"
    "load_extracted_content rt (log_info (Starting Chant) w) ''mantras_extraits.txt'' = Inr []"
    using assms by (auto intro!: missing_report_reads_empty simp: log_info_def)
  then show ?thesis
    by (simp add: generate_chant_def)
qed

lemma unreachable_report_raises:
  assumes "files w name = Some Unreachable"
  shows "load_extracted_content rt w name = Inl OSError"
  using assms by (simp add: load_extracted_content_def path_exists_def)

text \<open>
  C8. The claim is that \<open>_load_extracted_content\<close> returns the empty list, and raises
  nothing, whenever the file does not exist or cannot be read. The code does so when the
  file does not exist and when \<open>open\<close> or \<open>readlines\<close> fails, but not when the path
  cannot be reached: \<open>file_path.exists()\<close> stands before the \<open>try\<close>, the \<open>OSError\<close> that
  it raises leaves \<open>_load_extracted_content\<close>, and \<open>generate_chant\<close> passes it on.
\<close>

theorem C8_unreachable_report_raises:
  "load_extracted_content ascii_runtime (empty_world\<lparr>files := (\<lambda>name. Some Unreachable)\<rparr>)
     ''symboles_extraits.txt'' = Inl OSError \<and>
   fst (generate_chant ascii_runtime (empty_world\<lparr>files := (\<lambda>name. Some Unreachable)\<rparr>)) =
     Inl OSError \<and>
   load_extracted_content ascii_runtime empty_world ''symboles_extraits.txt'' = Inr [] \<and>
   load_extracted_content ascii_runtime (empty_world\<lparr>files := (\<lambda>name. Some Denied)\<rparr>)
     ''symboles_extraits.txt'' = Inr []"
  by (simp add: load_extracted_content_def path_exists_def open_readlines_def generate_chant_def
      log_info_def empty_world_def)

section \<open>The orchestrator\<close>

lemma logged_extract_symbols:
  "logged (snd (extract_symbols rt w)) = logged w @ [Starting Symbols]"
  by (simp add: extract_symbols_def write_symbols_file_def Let_def split_beta logged_write_file
      log_info_def split: option.splits sum.splits)

lemma logged_extract_mantras:
  "logged (snd (extract_mantras rt w)) = logged w @ [Starting Mantras]"
  by (simp add: extract_mantras_def write_mantras_file_def Let_def split_beta logged_write_file
      log_info_def split: option.splits sum.splits)

lemma logged_generate_chant:
  "logged (snd (generate_chant rt w)) = logged w @ [Starting Chant]"
  by (simp add: generate_chant_def write_chant_file_def Let_def split_beta logged_write_file
      log_info_def split: sum.splits)

text \<open>
  C6. Whatever the three stages return, in every one of the eight combinations,
  \<open>run_complete_ritual\<close> runs symbol extraction, then mantra extraction on the world that
  the first stage left, then chant generation on the world that the second stage left; it
  returns \<open>True\<close> exactly when all three returned \<open>True\<close>; and its log shows the start of
  each of the three stages, in this order, each followed by the report of its result.
\<close>

theorem C6_ritual_runs_all_stages:
  assumes "extract_symbols rt (log_info (Step Symbols) (log_info RitualBegin w)) = (Inr ok1, w1)"
    and "extract_mantras rt (log_info (Step Mantras) (step_result Symbols ok1 w1)) = (Inr ok2, w2)"
    and "generate_chant rt (log_info (Step Chant) (step_result Mantras ok2 w2)) = (Inr ok3, w3)"
  shows "fst (run_complete_ritual rt w) = Inr (ok1 \<and> ok2 \<and> ok3) \<and>
         snd (run_complete_ritual rt w) =
           log_info (if ok1 \<and> ok2 \<and> ok3 then RitualComplete
                     else RitualPartial (length (filter id [ok1, ok2, ok3])))
             (step_result Chant ok3 w3) \<and>
         logged (snd (run_complete_ritual rt w)) =
           logged w @
           [RitualBegin,
            Step Symbols, Starting Symbols, if ok1 then StepSucceeded Symbols else StepFailed Symbols,
            Step Mantras, Starting Mantras, if ok2 then StepSucceeded Mantras else StepFailed Mantras,
            Step Chant, Starting Chant, if ok3 then StepSucceeded Chant else StepFailed Chant,
            if ok1 \<and> ok2 \<and> ok3 then RitualComplete
            else RitualPartial (length (filter id [ok1, ok2, ok3]))]"
proof -
  have run: "run_complete_ritual rt w =
      (Inr (ok1 \<and> ok2 \<and> ok3),
       log_info (if ok1 \<and> ok2 \<and> ok3 then RitualComplete
                 else RitualPartial (length (filter id [ok1, ok2, ok3])))
         (step_result Chant ok3 w3))"
    using assms by (cases ok1; cases ok2; cases ok3) (simp_all add: run_complete_ritual_def)
  have l1: "logged w1 = logged w @ [RitualBegin, Step Symbols, Starting Symbols]"
    using logged_extract_symbols [of rt "log_info (Step Symbols) (log_info RitualBegin w)"]
      assms(1) by (simp add: log_info_def)
  have l2: "logged w2 = logged w1 @
      [if ok1 then StepSucceeded Symbols else StepFailed Symbols, Step Mantras, Starting Mantras]"
    using logged_extract_mantras [of rt "log_info (Step Mantras) (step_result Symbols ok1 w1)"]
      assms(2) by (simp add: log_info_def step_result_def)
  have l3: "logged w3 = logged w2 @
      [if ok2 then StepSucceeded Mantras else StepFailed Mantras, Step Chant, Starting Chant]"
    using logged_generate_chant [of rt "log_info (Step Chant) (step_result Mantras ok2 w2)"]
      assms(3) by (simp add: log_info_def step_result_def)
  show ?thesis
    unfolding run by (simp add: l1 l2 l3 log_info_def step_result_def)
qed

lemma stages_on_empty_world:
  "extract_symbols ascii_runtime (log_info (Step Symbols) (log_info RitualBegin empty_world)) =
     (Inr False, log_info (Starting Symbols)
        (log_info (Step Symbols) (log_info RitualBegin empty_world)))"
  "document v = NotFound \<Longrightarrow>
     extract_mantras ascii_runtime v = (Inr False, log_info (Starting Mantras) v)"
  "files v = (\<lambda>name. None) \<Longrightarrow>
     generate_chant ascii_runtime v = (Inr False, log_info (Starting Chant) v)"
  by (simp_all add: extract_symbols_def extract_mantras_def generate_chant_def load_json_data_def
      load_extracted_content_def path_exists_def log_info_def empty_world_def)

section \<open>What the reader returns\<close>

lemma strip_ends:
  assumes "strip s \<noteq> []"
  shows "\<not> isspace (hd (strip s))" and "\<not> isspace (last (strip s))"
proof -
  define t where "t = dropWhile isspace s"
  define u where "u = dropWhile isspace (rev t)"
  have s: "strip s = rev u" by (simp add: strip_def t_def u_def)
  with assms have u: "u \<noteq> []" by simp
  then have "\<not> isspace (hd u)" unfolding u_def by (rule hd_dropWhile)
  with u show "\<not> isspace (last (strip s))" by (simp add: s last_rev)
  from u have t: "t \<noteq> []" unfolding u_def by auto
  then have ht: "\<not> isspace (hd t)" unfolding t_def by (rule hd_dropWhile)
  have "rev t = takeWhile isspace (rev t) @ u" by (simp add: u_def)
  then have "last (rev t) = last u" using u by (metis last_appendR)
  with t have "last u = hd t" by (simp add: last_rev)
  with ht u show "\<not> isspace (hd (strip s))" by (simp add: s hd_rev)
qed

lemma split_once_eq:
  "split_once sep s = Some (before, after) \<Longrightarrow> s = before @ sep @ after"
proof (induction s arbitrary: before)
  case Nil
  then show ?case by simp
next
  case (Cons c cs)
  show ?case
  proof (cases "startswith (c # cs) sep")
    case True
    with Cons.prems have "before = []" "after = drop (length sep) (c # cs)" by simp_all
    moreover from True have "take (length sep) (c # cs) = sep" by (simp add: startswith_def)
    ultimately show ?thesis by (metis append_Nil append_take_drop_id)
  next
    case False
    with Cons.prems obtain b where "split_once sep cs = Some (b, after)" "before = c # b"
      by (auto split: option.splits)
    with Cons.IH show ?thesis by simp
  qed
qed

lemma in_content_loop:
  "c \<in> set (content_loop rt acc lines) \<longleftrightarrow>
     c \<in> set acc \<or> (\<exists>raw \<in> set lines. content_of_line rt raw = Some c)"
  by (induction lines arbitrary: acc) (auto split: option.splits)

lemma content_of_line_unfold:
  "content_of_line rt raw =
     (if strip raw \<noteq> [] \<and> \<not> begins_with_marker (strip raw)
      then (case split_once (str ''. '') (strip raw) of
              Some (before, after) \<Rightarrow>
                if py_isdigit rt (strip before) then Some after else Some (strip raw)
            | None \<Rightarrow> Some (strip raw))
      else None)"
  unfolding content_of_line_def begins_with_marker_def Let_def de_Morgan_disj ..

lemma content_of_line_shape:
  assumes "content_of_line rt raw = Some c"
  shows "clean_line (strip raw) \<and>
         (c = strip raw \<or>
          (\<exists>before. py_isdigit rt (strip before) \<and> strip raw = before @ str ''. '' @ c))"
proof -
  have pass: "strip raw \<noteq> [] \<and> \<not> begins_with_marker (strip raw)"
  proof (rule ccontr)
    assume "\<not> (strip raw \<noteq> [] \<and> \<not> begins_with_marker (strip raw))"
    then have "content_of_line rt raw = None"
      by (subst content_of_line_unfold) (simp only: if_False)
    with assms show False by simp
  qed
  with strip_ends [of raw] have clean: "clean_line (strip raw)" by (simp add: clean_line_def)
  from assms pass have body:
    "(case split_once (str ''. '') (strip raw) of
        Some (before, after) \<Rightarrow>
          if py_isdigit rt (strip before) then Some after else Some (strip raw)
      | None \<Rightarrow> Some (strip raw)) = Some c"
    by (subst (asm) content_of_line_unfold) simp
  have "c = strip raw \<or>
      (\<exists>before. py_isdigit rt (strip before) \<and> strip raw = before @ str ''. '' @ c)"
  proof (cases "split_once (str ''. '') (strip raw)")
    case None
    with body show ?thesis by simp
  next
    case (Some p)
    obtain before after where p: "p = (before, after)" by (cases p)
    from Some p have eq: "strip raw = before @ str ''. '' @ after"
      by (simp add: split_once_eq)
    show ?thesis
    proof (cases "py_isdigit rt (strip before)")
      case True
      with body Some p have "c = after" by simp
      with True eq show ?thesis by blast
    next
      case False
      with body Some p show ?thesis by simp
    qed
  qed
  with clean show ?thesis by simp
qed

lemma after_numbering_ends:
  assumes "clean_line (before @ str ''. '' @ c)"
  shows "c \<noteq> [] \<and> \<not> isspace (last c)"
proof (cases c)
  case Nil
  with assms have "\<not> isspace 32" by (simp add: clean_line_def str_def)
  then show ?thesis by (simp add: isspace_def)
next
  case (Cons a as)
  with assms show ?thesis by (simp add: clean_line_def)
qed

lemma loaded_from_file_lines:
  assumes "load_extracted_content rt w name = Inr content"
  shows "content = content_loop rt [] (file_lines w name)"
proof (cases "files w name")
  case None
  with assms show ?thesis
    by (simp add: load_extracted_content_def path_exists_def file_lines_def)
next
  case (Some entry)
  with assms show ?thesis
    by (cases entry)
      (simp_all add: load_extracted_content_def path_exists_def open_readlines_def file_lines_def)
qed

text \<open>
  C10, as the code has it. Every line that \<open>_load_extracted_content\<close> returns is non-empty
  and does not end in whitespace, and it comes from a line of the file that, once
  stripped, is non-empty, has no whitespace at either end and begins with none of the
  markers: the returned line is that stripped line itself, or what follows its numbering
  prefix \<open><digits>. \<close>. Nothing is said about how the part after a numbering prefix
  begins.
\<close>

theorem C10_returned_lines:
  "load_extracted_content rt w name = Inr content \<longrightarrow>
     (\<forall>line \<in> set content.
        line \<noteq> [] \<and> \<not> isspace (last line) \<and>
        (\<exists>raw \<in> set (file_lines w name).
           clean_line (strip raw) \<and>
           (line = strip raw \<or>
            (\<exists>before. py_isdigit rt (strip before) \<and>
               strip raw = before @ str ''. '' @ line))))"
proof (intro impI ballI)
  fix line
  assume "load_extracted_content rt w name = Inr content" and "line \<in> set content"
  then have "line \<in> set (content_loop rt [] (file_lines w name))"
    using loaded_from_file_lines by blast
  then obtain raw where raw: "raw \<in> set (file_lines w name)"
    and c: "content_of_line rt raw = Some line"
    by (auto simp: in_content_loop)
  from content_of_line_shape [OF c] have
    full: "clean_line (strip raw)" and
    shape: "line = strip raw \<or>
      (\<exists>before. py_isdigit rt (strip before) \<and> strip raw = before @ str ''. '' @ line)"
    by simp_all
  have ends: "line \<noteq> [] \<and> \<not> isspace (last line)"
  proof (cases "line = strip raw")
    case True
    with full show ?thesis by (simp add: clean_line_def)
  next
    case False
    with shape obtain before where "strip raw = before @ str ''. '' @ line" by blast
    with full have "clean_line (before @ str ''. '' @ line)" by simp
    then show ?thesis by (rule after_numbering_ends)
  qed
  from raw full shape have "\<exists>raw \<in> set (file_lines w name).
      clean_line (strip raw) \<and>
      (line = strip raw \<or>
       (\<exists>before. py_isdigit rt (strip before) \<and> strip raw = before @ str ''. '' @ line))"
    by blast
  with ends show "line \<noteq> [] \<and> \<not> isspace (last line) \<and>
     (\<exists>raw \<in> set (file_lines w name).
        clean_line (strip raw) \<and>
        (line = strip raw \<or>
         (\<exists>before. py_isdigit rt (strip before) \<and>
            strip raw = before @ str ''. '' @ line)))"
    by simp
qed

lemma strip_numbered_x: "strip (str ''1.  x'' @ nl) = str ''1.  x''"
  by (simp add: strip_def str_def nl_def isspace_def)

lemma strip_numbered_y: "strip (str ''2. =y'' @ nl) = str ''2. =y''"
  by (simp add: strip_def str_def nl_def isspace_def)

lemma strip_digit_1: "strip (str ''1'') = str ''1''" "strip (str ''2'') = str ''2''"
  by (simp_all add: strip_def str_def isspace_def)

lemma content_of_numbered_x:
  "content_of_line ascii_runtime (str ''1.  x'' @ nl) = Some (str '' x'')"
proof -
  have m: "\<not> begins_with_marker (str ''1.  x'')"
    by (simp add: begins_with_marker_def startswith_def generated_prefix_def str_def)
  have s: "split_once (str ''. '') (str ''1.  x'') = Some (str ''1'', str '' x'')"
    by (simp add: startswith_def str_def)
  have d: "py_isdigit ascii_runtime (str ''1'')"
    by (simp add: py_isdigit_def ascii_runtime_def str_def)
  have n: "str ''1.  x'' \<noteq> []" by (simp add: str_def)
  show ?thesis
    by (subst content_of_line_unfold) (simp add: strip_numbered_x m s d n strip_digit_1)
qed

lemma content_of_numbered_y:
  "content_of_line ascii_runtime (str ''2. =y'' @ nl) = Some (str ''=y'')"
proof -
  have m: "\<not> begins_with_marker (str ''2. =y'')"
    by (simp add: begins_with_marker_def startswith_def generated_prefix_def str_def)
  have s: "split_once (str ''. '') (str ''2. =y'') = Some (str ''2'', str ''=y'')"
    by (simp add: startswith_def str_def)
  have d: "py_isdigit ascii_runtime (str ''2'')"
    by (simp add: py_isdigit_def ascii_runtime_def str_def)
  have n: "str ''2. =y'' \<noteq> []" by (simp add: str_def)
  show ?thesis
    by (subst content_of_line_unfold) (simp add: strip_numbered_y m s d n strip_digit_1)
qed

lemma readlines_numbered_example:
  "readlines (str ''1.  x'' @ nl @ str ''2. =y'' @ nl) = [str ''1.  x'' @ nl, str ''2. =y'' @ nl]"
  by (simp add: readlines_def str_def nl_def)

lemma file_lines_numbered_example:
  "file_lines (report_world (str ''1.  x'' @ nl @ str ''2. =y'' @ nl)) ''symboles_extraits.txt'' =
     [str ''1.  x'' @ nl, str ''2. =y'' @ nl]"
  by (simp add: file_lines_def report_world_def readlines_numbered_example)

lemma load_numbered_example:
  "load_extracted_content ascii_runtime (report_world (str ''1.  x'' @ nl @ str ''2. =y'' @ nl))
     ''symboles_extraits.txt'' = Inr [str '' x'', str ''=y'']"
  by (simp add: load_extracted_content_def path_exists_def report_world_def open_readlines_def
      readlines_numbered_example content_of_numbered_x content_of_numbered_y)

theorem C10_returned_lines_witness:
  "load_extracted_content ascii_runtime (report_world (str ''1.  x'' @ nl @ str ''2. =y'' @ nl))
     ''symboles_extraits.txt'' = Inr [str '' x'', str ''=y''] \<and>
   str '' x'' \<noteq> [] \<and> \<not> isspace (last (str '' x'')) \<and>
   (\<exists>raw \<in> set (file_lines (report_world (str ''1.  x'' @ nl @ str ''2. =y'' @ nl))
                    ''symboles_extraits.txt'').
      clean_line (strip raw) \<and>
      (str '' x'' = strip raw \<or>
       (\<exists>before. py_isdigit ascii_runtime (strip before) \<and>
          strip raw = before @ str ''. '' @ str '' x''))) \<and>
   str ''=y'' \<noteq> [] \<and> \<not> isspace (last (str ''=y'')) \<and>
   (\<exists>raw \<in> set (file_lines (report_world (str ''1.  x'' @ nl @ str ''2. =y'' @ nl))
                    ''symboles_extraits.txt'').
      clean_line (strip raw) \<and>
      (str ''=y'' = strip raw \<or>
       (\<exists>before. py_isdigit ascii_runtime (strip before) \<and>
          strip raw = before @ str ''. '' @ str ''=y'')))"
  using C10_returned_lines [of ascii_runtime
      "report_world (str ''1.  x'' @ nl @ str ''2. =y'' @ nl)" "''symboles_extraits.txt''"
      "[str '' x'', str ''=y'']"] load_numbered_example
  by (simp only: list.set ball_simps simp_thms)

text \<open>
  C10 as stated fails: the part after a numbering prefix is returned as it is, so a
  returned line can begin with whitespace or with a marker.
\<close>

theorem C10_counterexample:
  "load_extracted_content ascii_runtime (report_world (str ''1.  x'' @ nl @ str ''2. =y'' @ nl))
     ''symboles_extraits.txt'' = Inr [str '' x'', str ''=y''] \<and>
   isspace (hd (str '' x'')) \<and> startswith (str ''=y'') (str ''='')"
  by (simp add: load_numbered_example) (simp add: str_def isspace_def startswith_def)

section \<open>Writing a report and reading it back\<close>

lemma decimal_digits: "set (decimal n) \<subseteq> {48 ..< 58}"
proof (induction n rule: decimal.induct)
  case (1 n)
  show ?case
  proof (cases "n < 10")
    case True
    then show ?thesis by (subst decimal.simps) simp
  next
    case False
    have "48 + n mod 10 < 58" by simp
    with False 1 show ?thesis by (subst decimal.simps) simp
  qed
qed

lemma decimal_nonempty: "decimal n \<noteq> []"
  by (subst decimal.simps) simp

lemma hd_decimal: "hd (decimal n) \<in> {48 ..< 58}"
  using decimal_digits [of n] decimal_nonempty [of n] by (metis hd_in_set subsetD)

lemma last_decimal: "last (decimal n) \<in> {48 ..< 58}"
  using decimal_digits [of n] decimal_nonempty [of n] by (metis last_in_set subsetD)

lemma digit_not_space: "c \<in> {48 ..< 58} \<Longrightarrow> \<not> isspace c"
  by (simp add: isspace_def)

lemma strip_core:
  assumes "list_all isspace pre" and "list_all isspace post"
    and "s = [] \<or> (\<not> isspace (hd s) \<and> \<not> isspace (last s))"
  shows "strip (pre @ s @ post) = s"
proof (cases s)
  case Nil
  have d: "dropWhile isspace (pre @ [] @ post) = []"
    using assms(1,2) by (simp only: dropWhile_eq_Nil_conv) (auto simp: list_all_iff)
  show ?thesis unfolding Nil strip_def d by simp
next
  case (Cons a as)
  with assms have ends: "\<not> isspace a" "\<not> isspace (last (a # as))" by simp_all
  have "dropWhile isspace (pre @ s @ post) = s @ post"
    using assms(1) ends(1) Cons by (simp add: dropWhile_append2 list_all_iff)
  moreover have "dropWhile isspace (rev post @ rev s) = rev s"
  proof -
    have "dropWhile isspace (rev post @ rev s) = dropWhile isspace (rev s)"
      using assms(2) by (intro dropWhile_append2) (simp add: list_all_iff)
    moreover have "rev s \<noteq> []" "hd (rev s) = last s" using Cons by (simp_all add: hd_rev)
    then have "dropWhile isspace (rev s) = rev s"
      using ends(2) Cons by (cases "rev s") simp_all
    ultimately show ?thesis by simp
  qed
  ultimately show ?thesis by (simp add: strip_def)
qed

lemma readlines_from_line:
  "no_line_break l \<Longrightarrow>
     readlines_from cur (l @ 10 # rest) = (cur @ l @ [10]) # readlines_from [] rest"
proof (induction l arbitrary: cur)
  case Nil
  show ?case by (cases rest) simp_all
next
  case (Cons a l)
  then have a: "a \<noteq> 10" "a \<noteq> 13" and l: "no_line_break l"
    by (auto simp: no_line_break_def)
  obtain d cs where "l @ 10 # rest = d # cs" by (cases "l @ 10 # rest") simp_all
  then have "readlines_from cur ((a # l) @ 10 # rest) = readlines_from (cur @ [a]) (l @ 10 # rest)"
    using a by simp
  with Cons.IH [OF l, of "cur @ [a]"] show ?case by simp
qed

lemma readlines_lines:
  "list_all no_line_break ls \<Longrightarrow>
     readlines (concat (map (\<lambda>l. l @ nl) ls)) = map (\<lambda>l. l @ nl) ls"
proof (induction ls)
  case Nil
  then show ?case by (simp add: readlines_def)
next
  case (Cons l ls)
  then show ?case
    using readlines_from_line [of l "[]" "concat (map (\<lambda>l. l @ nl) ls)"]
    by (simp add: readlines_def nl_def)
qed

lemma write_all_ok:
  "list_all encodable chunks \<Longrightarrow> write_all written chunks = (written @ concat chunks, True)"
  by (induction chunks arbitrary: written) simp_all

lemma encodable_append [simp]: "encodable (a @ b) \<longleftrightarrow> encodable a \<and> encodable b"
  by (simp add: encodable_def)

lemma no_line_break_append [simp]:
  "no_line_break (a @ b) \<longleftrightarrow> no_line_break a \<and> no_line_break b"
  by (auto simp: no_line_break_def)

lemma plain_chars:
  assumes "set s \<subseteq> {32 ..< 128}"
  shows "encodable s" and "no_line_break s"
  using assms by (auto simp: encodable_def no_line_break_def list_all_iff)

lemma set_zfill: "set (zfill k s) \<subseteq> insert 48 (set s)"
  by (auto simp: zfill_def)

lemma zfill_decimal_plain: "set (zfill k (decimal n)) \<subseteq> {32 ..< 128}"
proof -
  have "set (zfill k (decimal n)) \<subseteq> insert 48 {48 ..< 58}"
    using set_zfill [of k "decimal n"] decimal_digits [of n] by blast
  also have "\<dots> \<subseteq> {32 ..< 128}" by auto
  finally show ?thesis .
qed

lemma strftime_plain: "set (strftime t) \<subseteq> {32 ..< 128}"
  using zfill_decimal_plain by (simp add: strftime_def str_def)

lemma last_strftime: "\<not> isspace (last (strftime t))"
proof -
  have "zfill 2 (decimal (dt_second t)) \<noteq> []"
    by (simp add: zfill_def decimal_nonempty)
  then have "last (strftime t) = last (decimal (dt_second t))"
    by (simp add: strftime_def zfill_def decimal_nonempty)
  with last_decimal [of "dt_second t"] show ?thesis by (simp add: digit_not_space)
qed
lemma digit_line_not_marked:
  assumes "s \<noteq> []" and "hd s \<in> {48 ..< 58}"
  shows "\<not> begins_with_marker s"
proof -
  obtain a t where s: "s = a # t" using assms(1) by (cases s) simp_all
  with assms(2) have a: "48 \<le> a" "a < 58" by simp_all
  have "\<not> startswith (a # t) (b # p)" if "b \<noteq> a" for b p
    using that by (auto simp: startswith_def)
  with a show ?thesis
    by (simp add: s begins_with_marker_def generated_prefix_def str_def)
qed

lemma split_once_numbered:
  "46 \<notin> set d \<Longrightarrow> split_once (str ''. '') (d @ str ''. '' @ s) = Some (d, s)"
proof (induction d)
  case Nil
  show ?case by (simp add: str_def startswith_def)
next
  case (Cons c d)
  then have "\<not> startswith (c # d @ str ''. '' @ s) (str ''. '')"
    by (simp add: str_def startswith_def)
  with Cons show ?case by simp
qed

lemma isdigit_decimal:
  assumes "knows_ascii_digits rt"
  shows "py_isdigit rt (decimal n)"
proof -
  have "\<forall>c \<in> {48 ..< 58}. isdigit_cp rt c"
    using assms by (simp only: knows_ascii_digits_def list_all_iff set_upt)
  with decimal_digits [of n] have "\<forall>c \<in> set (decimal n). isdigit_cp rt c"
    by blast
  then show ?thesis by (simp add: py_isdigit_def decimal_nonempty list_all_iff)
qed

lemma strip_decimal: "strip (decimal n) = decimal n"
  using strip_core [of "[]" "[]" "decimal n"] hd_decimal [of n] last_decimal [of n]
  by (simp add: digit_not_space)

lemma content_of_numbered:
  assumes "knows_ascii_digits rt" and "s \<noteq> []" and "\<not> isspace (last s)"
  shows "content_of_line rt ((rjust 2 (decimal i) @ str ''. '' @ s) @ nl) = Some s"
proof -
  let ?core = "decimal i @ str ''. '' @ s"
  have hd: "hd ?core = hd (decimal i)" by (simp add: decimal_nonempty)
  have last: "last ?core = last s" using assms(2) by simp
  have "strip (replicate (2 - length (decimal i)) 32 @ ?core @ nl) = ?core"
    using hd_decimal [of i] assms(3)
    by (intro strip_core) (simp_all add: hd last digit_not_space nl_def isspace_def list_all_iff)
  then have strip: "strip ((rjust 2 (decimal i) @ str ''. '' @ s) @ nl) = ?core"
    by (simp add: rjust_def)
  have m: "\<not> begins_with_marker ?core"
    using hd_decimal [of i] by (intro digit_line_not_marked) (simp_all add: hd decimal_nonempty)
  have "46 \<notin> set (decimal i)" using decimal_digits [of i] by auto
  then have sp: "split_once (str ''. '') ?core = Some (decimal i, s)"
    by (rule split_once_numbered)
  have ne: "?core \<noteq> []" by (simp add: decimal_nonempty)
  show ?thesis
    by (subst content_of_line_unfold)
      (simp only: strip m sp ne strip_decimal isdigit_decimal [OF assms(1)] simp_thms if_True
        option.case prod.case)
qed

lemma content_of_marked:
  assumes "s = [] \<or> (\<not> isspace (hd s) \<and> \<not> isspace (last s) \<and> begins_with_marker s)"
  shows "content_of_line rt (s @ nl) = None"
proof -
  have "strip ([] @ s @ nl) = s"
    using assms by (intro strip_core) (auto simp: nl_def isspace_def)
  then have "strip (s @ nl) = s" by simp
  moreover have "\<not> (s \<noteq> [] \<and> \<not> begins_with_marker s)" using assms by auto
  ultimately show ?thesis
    by (subst content_of_line_unfold) (simp only: if_False)
qed

lemma content_loop_append:
  "content_loop rt acc (xs @ ys) = content_loop rt (content_loop rt acc xs) ys"
  by (induction xs arbitrary: acc) (simp_all split: option.splits)

lemma content_loop_all_kept:
  "(\<And>e. e \<in> set es \<Longrightarrow> content_of_line rt (g e) = Some (h e)) \<Longrightarrow>
     content_loop rt acc (map g es) = acc @ map h es"
  by (induction es arbitrary: acc) simp_all

lemma content_loop_dropped:
  "content_of_line rt x = None \<Longrightarrow> content_loop rt acc (x # xs) = content_loop rt acc xs"
  by simp
lemma numbered_entry:
  assumes "e \<in> set (enumerate n (map JStr L))"
  obtains i s where "e = (i, JStr s)" and "s \<in> set L"
proof -
  obtain i v where e: "e = (i, v)" by (cases e)
  with assms have "v \<in> set (map JStr L)" by (auto simp: in_set_enumerate_eq)
  then obtain s where "v = JStr s" "s \<in> set L" by auto
  with e that show thesis by simp
qed

lemma replicate_eq_plain:
  "\<not> isspace (hd (replicate 50 61))" "\<not> isspace (last (replicate 50 61))"
  "begins_with_marker (replicate 50 61)" "no_line_break (replicate 50 61)"
  "encodable (replicate 50 61)"
proof -
  have r: "replicate 50 (61::nat) = 61 # replicate 49 61"
    by (simp add: replicate_Suc [symmetric] del: replicate_Suc)
  show "\<not> isspace (hd (replicate 50 61))" by (simp add: r isspace_def)
  show "\<not> isspace (last (replicate 50 61))" by (simp add: isspace_def)
  show "begins_with_marker (replicate 50 61)"
    by (simp add: r begins_with_marker_def startswith_def str_def)
  show "no_line_break (replicate 50 61)" by (simp add: no_line_break_def)
  show "encodable (replicate 50 61)" by (simp add: encodable_def list_all_iff)
qed

lemma generated_line:
  "\<not> isspace (hd (generated_prefix @ str '' le: '' @ strftime t))"
  "\<not> isspace (last (generated_prefix @ str '' le: '' @ strftime t))"
  "begins_with_marker (generated_prefix @ str '' le: '' @ strftime t)"
  "no_line_break (generated_prefix @ str '' le: '' @ strftime t)"
  "encodable (generated_prefix @ str '' le: '' @ strftime t)"
proof -
  have ne: "strftime t \<noteq> []" by (simp add: strftime_def str_def)
  show "\<not> isspace (hd (generated_prefix @ str '' le: '' @ strftime t))"
    by (simp add: generated_prefix_def str_def isspace_def)
  show "\<not> isspace (last (generated_prefix @ str '' le: '' @ strftime t))"
    using last_strftime [of t] ne by simp
  show "begins_with_marker (generated_prefix @ str '' le: '' @ strftime t)"
    by (simp add: begins_with_marker_def startswith_def)
  show "no_line_break (generated_prefix @ str '' le: '' @ strftime t)"
    using plain_chars(2) [OF strftime_plain [of t]]
    by (simp add: generated_prefix_def str_def no_line_break_def)
  show "encodable (generated_prefix @ str '' le: '' @ strftime t)"
    using plain_chars(1) [OF strftime_plain [of t]]
    by (simp add: generated_prefix_def str_def encodable_def)
qed

lemma decimal_plain: "no_line_break (decimal n)" "encodable (decimal n)"
proof -
  have "set (decimal n) \<subseteq> {32 ..< 128}" using decimal_digits [of n] by auto
  then show "no_line_break (decimal n)" "encodable (decimal n)"
    by (rule plain_chars(2), rule plain_chars(1))
qed

lemma footer_line:
  assumes "no_line_break tail"
  shows "\<not> isspace (hd (str ''--- Total: '' @ decimal n @ tail @ str '' ---''))"
    "\<not> isspace (last (str ''--- Total: '' @ decimal n @ tail @ str '' ---''))"
    "begins_with_marker (str ''--- Total: '' @ decimal n @ tail @ str '' ---'')"
    "no_line_break (str ''--- Total: '' @ decimal n @ tail @ str '' ---'')"
proof -
  show "\<not> isspace (hd (str ''--- Total: '' @ decimal n @ tail @ str '' ---''))"
    by (simp add: str_def isspace_def)
  show "\<not> isspace (last (str ''--- Total: '' @ decimal n @ tail @ str '' ---''))"
    by (simp add: str_def isspace_def)
  show "begins_with_marker (str ''--- Total: '' @ decimal n @ tail @ str '' ---'')"
    by (simp add: begins_with_marker_def startswith_def str_def)
  show "no_line_break (str ''--- Total: '' @ decimal n @ tail @ str '' ---'')"
    using assms decimal_plain(1) [of n] by (simp add: str_def no_line_break_def)
qed

lemma rjust_decimal_plain: "set (rjust k (decimal n)) \<subseteq> {32 ..< 128}"
proof -
  have "set (rjust k (decimal n)) \<subseteq> insert 32 {48 ..< 58}"
    using decimal_digits [of n] by (auto simp: rjust_def)
  also have "\<dots> \<subseteq> {32 ..< 128}" by auto
  finally show ?thesis .
qed

lemma numbered_plain:
  "no_line_break s \<Longrightarrow> no_line_break (rjust 2 (decimal i) @ str ''. '' @ s)"
  "encodable s \<Longrightarrow> encodable (rjust 2 (decimal i) @ str ''. '' @ s)"
  using plain_chars [OF rjust_decimal_plain [of 2 i]]
  by (simp_all add: str_def no_line_break_def encodable_def)

lemma report_lines_read_entries:
  assumes title: "\<not> isspace (hd title)" "\<not> isspace (last title)" "begins_with_marker title"
      "no_line_break title"
    and tail: "no_line_break tail"
    and fmt: "list_all (\<lambda>entry. no_line_break (py_format rt entry)) entries"
  shows "content_loop rt []
           (readlines (concat (map (\<lambda>l. l @ nl) (report_lines title tail rt t entries)))) =
         content_loop rt []
           (map (\<lambda>e. (case e of (i, entry) \<Rightarrow>
                          rjust 2 (decimal i) @ str ''. '' @ py_format rt entry) @ nl)
              (enumerate 1 entries))"
proof -
  let ?gen = "generated_prefix @ str '' le: '' @ strftime t"
  let ?foot = "str ''--- Total: '' @ decimal (length entries) @ tail @ str '' ---''"
  let ?num = "\<lambda>(i, entry). rjust 2 (decimal i) @ str ''. '' @ py_format rt entry"
  let ?es = "enumerate 1 entries"
  have num_nlb: "list_all no_line_break (map ?num ?es)"
  proof -
    have "no_line_break (?num e)" if "e \<in> set ?es" for e
    proof -
      obtain i v where e: "e = (i, v)" by (cases e)
      with that have "v \<in> set entries" by (auto simp: in_set_enumerate_eq)
      with fmt have "no_line_break (py_format rt v)" by (simp add: list_all_iff)
      from numbered_plain(1) [OF this, of i] show ?thesis by (simp add: e)
    qed
    then show ?thesis by (simp add: list_all_iff)
  qed
  have nlb: "list_all no_line_break (report_lines title tail rt t entries)"
    using title(4) replicate_eq_plain(4) generated_line(4) [of t] footer_line(4) [OF tail] num_nlb
    by (simp add: report_lines_def no_line_break_def)
  have read: "readlines (concat (map (\<lambda>l. l @ nl) (report_lines title tail rt t entries))) =
      map (\<lambda>l. l @ nl) (report_lines title tail rt t entries)"
    using nlb by (rule readlines_lines)
  have d1: "content_of_line rt (title @ nl) = None"
    using title by (intro content_of_marked) simp
  have d2: "content_of_line rt (replicate 50 61 @ nl) = None"
    using replicate_eq_plain by (intro content_of_marked) simp
  have "content_of_line rt ([] @ nl) = None"
    by (intro content_of_marked) simp
  then have d3: "content_of_line rt nl = None"
    by (simp only: append_Nil)
  have d4: "content_of_line rt (?gen @ nl) = None"
    using generated_line [of t] by (intro content_of_marked) simp
  have d5: "content_of_line rt (?foot @ nl) = None"
    using footer_line [OF tail] by (intro content_of_marked) simp
  have shape: "map (\<lambda>l. l @ nl) (report_lines title tail rt t entries) =
      [title @ nl, replicate 50 61 @ nl, nl, ?gen @ nl, nl] @
      map (\<lambda>e. ?num e @ nl) ?es @ [nl, ?foot @ nl]"
    by (simp add: report_lines_def o_def)
  have "content_loop rt [] (map (\<lambda>l. l @ nl) (report_lines title tail rt t entries)) =
      content_loop rt (content_loop rt [] (map (\<lambda>e. ?num e @ nl) ?es)) [nl, ?foot @ nl]"
    unfolding shape
    by (simp only: append_Cons append_Nil2 content_loop_dropped d1 d2 d3 d4 content_loop_append
        append_Nil)
  also have "\<dots> = content_loop rt [] (map (\<lambda>e. ?num e @ nl) ?es)"
    by (simp only: content_loop_dropped d3 d5 content_loop.simps option.case)
  finally show ?thesis
    by (simp only: read)
qed

lemma report_lines_read:
  assumes digits: "knows_ascii_digits rt"
    and safe: "list_all report_safe L"
    and title: "\<not> isspace (hd title)" "\<not> isspace (last title)" "begins_with_marker title"
      "no_line_break title"
    and tail: "no_line_break tail"
  shows "content_loop rt []
           (readlines (concat (map (\<lambda>l. l @ nl) (report_lines title tail rt t (map JStr L))))) = L"
proof -
  let ?num = "\<lambda>(i, entry). rjust 2 (decimal i) @ str ''. '' @ py_format rt entry"
  let ?es = "enumerate 1 (map JStr L)"
  have fmt: "list_all (\<lambda>entry. no_line_break (py_format rt entry)) (map JStr L)"
    using safe by (simp add: list_all_iff report_safe_def py_format_def)
  have kept: "content_of_line rt (?num e @ nl) = Some (py_format rt (snd e))"
    if "e \<in> set ?es" for e
  proof -
    from that obtain i s where e: "e = (i, JStr s)" and s: "s \<in> set L"
      by (rule numbered_entry)
    from s safe have "s \<noteq> []" "\<not> isspace (last s)"
      by (simp_all add: list_all_iff report_safe_def)
    from content_of_numbered [OF digits this, of i] show ?thesis
      by (simp add: e py_format_def)
  qed
  have body: "content_loop rt [] (map (\<lambda>e. ?num e @ nl) ?es) = [] @ map (\<lambda>e. py_format rt (snd e)) ?es"
    using kept by (rule content_loop_all_kept)
  have "map (\<lambda>e. py_format rt (snd e)) ?es = map (py_format rt) (map snd ?es)"
    by (simp only: map_map o_def)
  also have "\<dots> = map (py_format rt) (map JStr L)"
    by (simp only: map_snd_enumerate)
  also have "\<dots> = L"
    by (simp add: o_def py_format_def)
  finally have entries: "content_loop rt [] (map (\<lambda>e. ?num e @ nl) ?es) = L"
    using body by simp
  show ?thesis
    unfolding report_lines_read_entries [OF title tail fmt] by (rule entries)
qed

lemma write_file_ok:
  assumes "files w name \<noteq> Some Denied" and "files w name \<noteq> Some Unreachable"
    and "list_all encodable chunks"
  shows "write_file name chunks w = (True, w\<lparr>files := (files w)(name \<mapsto> Text (concat chunks))\<rparr>)"
proof -
  have "write_all [] chunks = (concat chunks, True)"
    using write_all_ok [OF assms(3), of "[]"] by simp
  with assms(1,2) show ?thesis
    by (simp add: write_file_def split: option.splits fentry.splits)
qed

lemma load_written:
  "load_extracted_content rt (w\<lparr>files := (files w)(name \<mapsto> Text text)\<rparr>) name =
     Inr (content_loop rt [] (readlines text))"
  by (simp add: load_extracted_content_def path_exists_def open_readlines_def)

lemma symbols_title_plain:
  "\<not> isspace (hd symbols_title)" "\<not> isspace (last symbols_title)"
  "begins_with_marker symbols_title" "no_line_break symbols_title" "encodable symbols_title"
  by (simp_all add: symbols_title_def str_def isspace_def begins_with_marker_def startswith_def
      no_line_break_def encodable_def)

lemma mantras_title_plain:
  "\<not> isspace (hd mantras_title)" "\<not> isspace (last mantras_title)"
  "begins_with_marker mantras_title" "no_line_break mantras_title" "encodable mantras_title"
  by (simp_all add: mantras_title_def str_def isspace_def begins_with_marker_def startswith_def
      no_line_break_def encodable_def)

lemma tails_plain:
  "no_line_break (str '' symboles'')" "encodable (str '' symboles'')"
  "no_line_break (str '' '' @ [0xE9] @ str ''l'' @ [0xE9] @ str ''ments narratifs'')"
  "encodable (str '' '' @ [0xE9] @ str ''l'' @ [0xE9] @ str ''ments narratifs'')"
  by (simp_all add: str_def no_line_break_def encodable_def)

lemma nl_encodable: "encodable nl"
  by (simp add: nl_def encodable_def)

lemma report_chunks_text:
  "concat ([title @ nl, replicate 50 61 @ nl @ nl,
            generated_prefix @ str '' le: '' @ strftime t @ nl @ nl] @
           map (numbered_line rt) (enumerate 1 entries) @
           [nl @ str ''--- Total: '' @ decimal (length entries) @ tail @ str '' ---'' @ nl]) =
   concat (map (\<lambda>l. l @ nl) (report_lines title tail rt t entries))"
  by (simp add: report_lines_def numbered_line_def o_def case_prod_unfold)

lemma report_chunks_encodable:
  assumes "encodable title" and "encodable tail"
    and "list_all (\<lambda>entry. encodable (py_format rt entry)) entries"
  shows "list_all encodable
           ([title @ nl, replicate 50 61 @ nl @ nl,
             generated_prefix @ str '' le: '' @ strftime t @ nl @ nl] @
            map (numbered_line rt) (enumerate 1 entries) @
            [nl @ str ''--- Total: '' @ decimal (length entries) @ tail @ str '' ---'' @ nl])"
proof -
  have num: "list_all encodable (map (numbered_line rt) (enumerate 1 entries))"
  proof -
    have "encodable (numbered_line rt e)" if "e \<in> set (enumerate 1 entries)" for e
    proof -
      obtain i v where e: "e = (i, v)" by (cases e)
      with that have "v \<in> set entries" by (auto simp: in_set_enumerate_eq)
      with assms(3) have "encodable (py_format rt v)" by (simp add: list_all_iff)
      from numbered_plain(2) [OF this, of i] show ?thesis
        by (simp add: e numbered_line_def nl_encodable)
    qed
    then show ?thesis by (simp add: list_all_iff)
  qed
  have foot: "encodable (str ''--- Total: '')" "encodable (str '' ---'')"
    by (simp_all add: str_def encodable_def)
  show ?thesis
    using assms(1,2) num foot replicate_eq_plain(5) generated_line(5) [of t]
      decimal_plain(2) [of "length entries"]
    by (simp add: nl_encodable)
qed
lemma symbols_written:
  assumes "files w target \<noteq> Some Denied" and "files w target \<noteq> Some Unreachable"
    and "list_all (\<lambda>entry. encodable (py_format rt entry)) entries"
  shows "write_symbols_file rt entries target w =
           (True, w\<lparr>files := (files w)(target \<mapsto> Text (concat (map (\<lambda>l. l @ nl)
              (report_lines symbols_title (str '' symboles'') rt (now w) entries))))\<rparr>)"
proof -
  have tail: "str '' symboles ---'' = str '' symboles'' @ str '' ---''"
    by (simp add: str_def)
  show ?thesis
    unfolding write_symbols_file_def tail
    by (subst write_file_ok [OF assms(1,2)])
      (simp_all only: append_assoc report_chunks_text
        report_chunks_encodable [OF symbols_title_plain(5) tails_plain(2) assms(3)])
qed

lemma mantras_written:
  assumes "files w target \<noteq> Some Denied" and "files w target \<noteq> Some Unreachable"
    and "list_all (\<lambda>entry. encodable (py_format rt entry)) entries"
  shows "write_mantras_file rt entries target w =
           (True, w\<lparr>files := (files w)(target \<mapsto> Text (concat (map (\<lambda>l. l @ nl)
              (report_lines mantras_title
                 (str '' '' @ [0xE9] @ str ''l'' @ [0xE9] @ str ''ments narratifs'')
                 rt (now w) entries))))\<rparr>)"
proof -
  define tail where "tail = str '' '' @ [0xE9] @ str ''l'' @ [0xE9] @ str ''ments narratifs''"
  have t: "str '' '' @ [0xE9] @ str ''l'' @ [0xE9] @ str ''ments narratifs ---'' @ nl =
      tail @ str '' ---'' @ nl"
    by (simp add: tail_def str_def)
  have enc: "encodable tail"
    unfolding tail_def by (rule tails_plain(4))
  have "write_mantras_file rt entries target w =
      (True, w\<lparr>files := (files w)(target \<mapsto> Text (concat (map (\<lambda>l. l @ nl)
         (report_lines mantras_title tail rt (now w) entries))))\<rparr>)"
    unfolding write_mantras_file_def t
    by (subst write_file_ok [OF assms(1,2)])
      (simp_all only: report_chunks_text
        report_chunks_encodable [OF mantras_title_plain(5) enc assms(3)])
  then show ?thesis unfolding tail_def .
qed

text \<open>
  C1, as the code has it. Let \<open>L\<close> be a list of strings, each of them non-empty, not
  ending in whitespace, without \<open>\n\<close> or \<open>\r\<close> and encodable in UTF-8, let the target be
  a path that can be opened for writing, and let \<open>str.isdigit\<close> accept the ASCII digits.
  Then \<open>_write_symbols_file\<close> and \<open>_write_mantras_file\<close> return \<open>True\<close> and
  \<open>_load_extracted_content\<close> on the file they wrote returns \<open>L\<close>, for every length of
  \<open>L\<close>.
\<close>

theorem C1_report_roundtrip:
  assumes "knows_ascii_digits rt" and "list_all report_safe L"
    and "files w target \<noteq> Some Denied" and "files w target \<noteq> Some Unreachable"
  shows "fst (write_symbols_file rt (map JStr L) target w) \<and>
         load_extracted_content rt (snd (write_symbols_file rt (map JStr L) target w)) target =
           Inr L \<and>
         fst (write_mantras_file rt (map JStr L) target w) \<and>
         load_extracted_content rt (snd (write_mantras_file rt (map JStr L) target w)) target =
           Inr L"
proof -
  have enc: "list_all (\<lambda>entry. encodable (py_format rt entry)) (map JStr L)"
    using assms(2) by (simp add: list_all_iff report_safe_def py_format_def)
  have "content_loop rt [] (readlines (concat (map (\<lambda>l. l @ nl)
      (report_lines symbols_title (str '' symboles'') rt (now w) (map JStr L))))) = L"
    using assms(1,2) symbols_title_plain(1-4) tails_plain(1) by (rule report_lines_read)
  then have "load_extracted_content rt (snd (write_symbols_file rt (map JStr L) target w)) target =
      Inr L"
    unfolding symbols_written [OF assms(3,4) enc] snd_conv load_written by simp
  moreover
  have "content_loop rt [] (readlines (concat (map (\<lambda>l. l @ nl)
      (report_lines mantras_title
         (str '' '' @ [0xE9] @ str ''l'' @ [0xE9] @ str ''ments narratifs'')
         rt (now w) (map JStr L))))) = L"
    using assms(1,2) mantras_title_plain(1-4) tails_plain(3) by (rule report_lines_read)
  then have "load_extracted_content rt (snd (write_mantras_file rt (map JStr L) target w)) target =
      Inr L"
    unfolding mantras_written [OF assms(3,4) enc] snd_conv load_written by simp
  ultimately show ?thesis
    by (simp add: symbols_written [OF assms(3,4) enc] mantras_written [OF assms(3,4) enc])
qed

lemma ascii_runtime_knows_digits: "knows_ascii_digits ascii_runtime"
  by (simp add: knows_ascii_digits_def ascii_runtime_def list_all_iff)

lemma sample_report_safe:
  "list_all report_safe [str ''Phi'', str '' two words'', str ''3. x'']"
  by (simp add: report_safe_def str_def isspace_def no_line_break_def encodable_def)

theorem C1_report_roundtrip_witness:
  "knows_ascii_digits ascii_runtime \<and>
   list_all report_safe [str ''Phi'', str '' two words'', str ''3. x''] \<and>
   files empty_world ''symboles_extraits.txt'' \<noteq> Some Denied \<and>
   files empty_world ''symboles_extraits.txt'' \<noteq> Some Unreachable \<and>
   load_extracted_content ascii_runtime
     (snd (write_symbols_file ascii_runtime
        (map JStr [str ''Phi'', str '' two words'', str ''3. x'']) ''symboles_extraits.txt''
        empty_world))
     ''symboles_extraits.txt'' = Inr [str ''Phi'', str '' two words'', str ''3. x'']"
proof -
  have f: "files empty_world ''symboles_extraits.txt'' \<noteq> Some Denied"
    "files empty_world ''symboles_extraits.txt'' \<noteq> Some Unreachable"
    by (simp_all add: empty_world_def)
  from C1_report_roundtrip [OF ascii_runtime_knows_digits sample_report_safe f]
    ascii_runtime_knows_digits sample_report_safe f
  show ?thesis by blast
qed

lemma numbered_lines_not_safe:
  "content_of_line ascii_runtime (rjust 2 (decimal (Suc 0)) @ str ''. '' @ str ''a '' @ nl) =
     Some (str ''a'')"
  "content_of_line ascii_runtime (rjust 2 (decimal (Suc (Suc 0))) @ str ''. '' @ nl) =
     Some (str ''2.'')"
  by (simp_all add: decimal.simps rjust_def str_def nl_def content_of_line_def strip_def
      isspace_def startswith_def generated_prefix_def py_isdigit_def ascii_runtime_def)

text \<open>
  C1 as stated fails: the strings \<open>"a "\<close> and \<open>""\<close> contain no newline, the report is
  written, and reading it back gives \<open>"a"\<close> and \<open>"2."\<close>. The reader strips every line, and
  a line that is only a number and a dot has no \<open>". "\<close> to split at.
\<close>

theorem C1_counterexample:
  "no_line_break (str ''a '') \<and> no_line_break [] \<and>
   fst (write_symbols_file ascii_runtime (map JStr [str ''a '', []]) ''symboles_extraits.txt''
          empty_world) \<and>
   load_extracted_content ascii_runtime
     (snd (write_symbols_file ascii_runtime (map JStr [str ''a '', []]) ''symboles_extraits.txt''
             empty_world))
     ''symboles_extraits.txt'' = Inr [str ''a'', str ''2.'']"
proof -
  have f: "files empty_world ''symboles_extraits.txt'' \<noteq> Some Denied"
    "files empty_world ''symboles_extraits.txt'' \<noteq> Some Unreachable"
    by (simp_all add: empty_world_def)
  have enc: "list_all (\<lambda>entry. encodable (py_format ascii_runtime entry))
      (map JStr [str ''a '', []])"
    by (simp add: py_format_def str_def encodable_def)
  have fmt: "list_all (\<lambda>entry. no_line_break (py_format ascii_runtime entry))
      (map JStr [str ''a '', []])"
    by (simp add: py_format_def str_def no_line_break_def)
  have "load_extracted_content ascii_runtime
     (snd (write_symbols_file ascii_runtime (map JStr [str ''a '', []]) ''symboles_extraits.txt''
             empty_world))
     ''symboles_extraits.txt'' = Inr [str ''a'', str ''2.'']"
    unfolding symbols_written [OF f enc] snd_conv load_written
      report_lines_read_entries [OF symbols_title_plain(1-4) tails_plain(1) fmt]
    by (simp add: py_format_def numbered_lines_not_safe)
  moreover have "fst (write_symbols_file ascii_runtime (map JStr [str ''a '', []])
      ''symboles_extraits.txt'' empty_world)"
    by (simp only: symbols_written [OF f enc] fst_conv)
  moreover have "no_line_break (str ''a '')" "no_line_break []"
    by (simp_all add: str_def no_line_break_def)
  ultimately show ?thesis by blast
qed

section \<open>Exceptions that leave a stage\<close>

lemma unique_loop_returns:
  "list_all hashable xs \<Longrightarrow> \<exists>r. unique_loop u seen xs = Inr r"
  by (induction xs arbitrary: u seen) simp_all

lemma unique_loop_raises:
  "\<not> list_all hashable xs \<Longrightarrow> unique_loop u seen xs = Inl TypeError"
  by (induction xs arbitrary: u seen) simp_all

lemma py_get_dict: "py_get (JDict kv) key dflt = Inr (entry_or kv key dflt)"
  by (simp add: py_get_def entry_or_def split: option.splits)

lemma py_get_other:
  "py_get JNull key dflt = Inl AttributeError"
  "py_get (JBool b) key dflt = Inl AttributeError"
  "py_get (JInt i) key dflt = Inl AttributeError"
  "py_get (JStr t) key dflt = Inl AttributeError"
  "py_get (JList xs) key dflt = Inl AttributeError"
  by (simp_all add: py_get_def)

lemma py_iter_eq: "py_iter v = (if iterable v then Inr (elements v) else Inl TypeError)"
  by (cases v) (simp_all add: py_iter_def iterable_def elements_def)

lemma gather_all_symbols_returns_iff:
  "(\<exists>symbols. gather_all_symbols data = Inr symbols) \<longleftrightarrow> symbols_gatherable data"
proof (cases data)
  case (JDict kv)
  show ?thesis
  proof (cases "entry_or kv (str ''symbolic_analysis'') (JDict [])")
    case (JDict sect)
    let ?s = "entry_or sect (str ''symbols'') (JList [])"
    let ?a = "entry_or sect (str ''aesthetic_techniques'') (JList [])"
    have g: "gather_all_symbols data =
        (if iterable ?s then
           (if iterable ?a then unique_loop [] [] (elements ?s @ elements ?a)
            else Inl TypeError)
         else Inl TypeError)"
      by (simp add: gather_all_symbols_def \<open>data = JDict kv\<close> JDict py_get_dict py_iter_eq)
    have u: "(\<exists>r. unique_loop [] [] (elements ?s @ elements ?a) = Inr r) \<longleftrightarrow>
        list_all hashable (elements ?s) \<and> list_all hashable (elements ?a)"
    proof (cases "list_all hashable (elements ?s) \<and> list_all hashable (elements ?a)")
      case True
      then have "list_all hashable (elements ?s @ elements ?a)" by simp
      from unique_loop_returns [OF this, of "[]" "[]"] True show ?thesis by blast
    next
      case False
      then have "\<not> list_all hashable (elements ?s @ elements ?a)" by simp
      from unique_loop_raises [OF this, of "[]" "[]"] False show ?thesis by simp
    qed
    show ?thesis
      unfolding g using u
      by (simp add: symbols_gatherable_def \<open>data = JDict kv\<close> JDict)
  qed (simp_all add: gather_all_symbols_def symbols_gatherable_def \<open>data = JDict kv\<close>
      py_get_dict py_get_other)
qed (simp_all add: gather_all_symbols_def symbols_gatherable_def py_get_other)

lemma gather_all_mantras_returns_iff:
  "(\<exists>mantras. gather_all_mantras rt data = Inr mantras) \<longleftrightarrow> mantras_gatherable data"
proof (cases data)
  case (JDict kv)
  show ?thesis
  proof (cases "entry_or kv (str ''narrative_structures'') (JDict [])")
    case (JDict sect)
    then show ?thesis
      by (simp add: gather_all_mantras_def mantras_gatherable_def \<open>data = JDict kv\<close>
          py_get_dict py_iter_eq Let_def)
  qed (simp_all add: gather_all_mantras_def mantras_gatherable_def \<open>data = JDict kv\<close>
      py_get_dict py_get_other)
qed (simp_all add: gather_all_mantras_def mantras_gatherable_def py_get_other)

text \<open>A document of the expected shape can be gathered.\<close>

lemma str_list_iterable:
  "is_str_list v \<Longrightarrow> iterable v \<and> list_all hashable (elements v)"
  by (cases v)
    (auto simp: is_str_list_def iterable_def elements_def is_str_def hashable_def list_all_iff
      split: json.splits)

lemma entry_ok_entry_or: "entry_ok kv key P \<Longrightarrow> P dflt \<Longrightarrow> P (entry_or kv key dflt)"
  by (simp add: entry_ok_def entry_or_def split: option.splits)

lemma expected_shape_gatherable:
  assumes "expected_shape data"
  shows "symbols_gatherable data" and "mantras_gatherable data"
proof -
  from assms obtain kv where data: "data = JDict kv"
    and sec: "entry_ok kv (str ''symbolic_analysis'') symbolic_ok"
      "entry_ok kv (str ''narrative_structures'') narrative_ok"
    by (cases data) (simp_all add: expected_shape_def)
  have dflt: "is_str_list (JList [])" by (simp add: is_str_list_def)
  have "symbolic_ok (JDict [])" by (simp add: symbolic_ok_def entry_ok_def)
  with sec(1) have "symbolic_ok (entry_or kv (str ''symbolic_analysis'') (JDict []))"
    by (rule entry_ok_entry_or)
  then obtain s where s: "entry_or kv (str ''symbolic_analysis'') (JDict []) = JDict s"
    and e: "entry_ok s (str ''symbols'') is_str_list"
      "entry_ok s (str ''aesthetic_techniques'') is_str_list"
    by (cases "entry_or kv (str ''symbolic_analysis'') (JDict [])")
      (simp_all add: symbolic_ok_def)
  from e dflt have "is_str_list (entry_or s (str ''symbols'') (JList []))"
    "is_str_list (entry_or s (str ''aesthetic_techniques'') (JList []))"
    by (simp_all add: entry_ok_entry_or)
  then show "symbols_gatherable data"
    by (simp add: symbols_gatherable_def data s str_list_iterable)
  have "narrative_ok (JDict [])" by (simp add: narrative_ok_def entry_ok_def)
  with sec(2) have "narrative_ok (entry_or kv (str ''narrative_structures'') (JDict []))"
    by (rule entry_ok_entry_or)
  then obtain n where n: "entry_or kv (str ''narrative_structures'') (JDict []) = JDict n"
    and m: "entry_ok n (str ''mantras'') is_str_list"
      "entry_ok n (str ''techniques'') is_str_list"
    by (cases "entry_or kv (str ''narrative_structures'') (JDict [])")
      (simp_all add: narrative_ok_def)
  from m dflt have "is_str_list (entry_or n (str ''mantras'') (JList []))"
    "is_str_list (entry_or n (str ''techniques'') (JList []))"
    by (simp_all add: entry_ok_entry_or)
  then show "mantras_gatherable data"
    by (simp add: mantras_gatherable_def data n str_list_iterable)
qed

text \<open>The odd document is not of the expected shape, and both gather methods return on
  it.\<close>

lemma odd_document_gatherable:
  "\<not> expected_shape odd_document" "symbols_gatherable odd_document"
  "mantras_gatherable odd_document"
  by (simp_all add: odd_document_def expected_shape_def symbolic_ok_def narrative_ok_def
      entry_ok_def is_str_list_def is_str_def symbols_gatherable_def mantras_gatherable_def
      entry_or_def iterable_def elements_def hashable_def str_def)

lemma document_log_info [simp]: "document (log_info e w) = document w"
  by (simp add: log_info_def)

lemma document_step_result [simp]: "document (step_result s ok w) = document w"
  by (simp add: step_result_def)

lemma files_log_info [simp]: "files (log_info e w) = files w"
  by (simp add: log_info_def)

lemma files_step_result [simp]: "files (step_result s ok w) = files w"
  by (simp add: step_result_def)

lemma document_extract_symbols: "document (snd (extract_symbols rt w)) = document w"
  by (simp add: extract_symbols_def write_symbols_file_def Let_def split_beta document_write_file
      split: option.splits sum.splits)

lemma document_extract_mantras: "document (snd (extract_mantras rt w)) = document w"
  by (simp add: extract_mantras_def write_mantras_file_def Let_def split_beta document_write_file
      split: option.splits sum.splits)

text \<open>Writing neither makes a path unreachable nor makes it reachable.\<close>

lemma unreachable_write_file:
  "files (snd (write_file name chunks w)) n = Some Unreachable \<longleftrightarrow>
     files w n = Some Unreachable"
  by (auto simp: write_file_def split_beta split: option.splits fentry.splits)

lemma unreachable_extract_symbols:
  "files (snd (extract_symbols rt w)) n = Some Unreachable \<longleftrightarrow> files w n = Some Unreachable"
  by (simp add: extract_symbols_def write_symbols_file_def Let_def split_beta
      unreachable_write_file split: option.splits sum.splits)

lemma unreachable_extract_mantras:
  "files (snd (extract_mantras rt w)) n = Some Unreachable \<longleftrightarrow> files w n = Some Unreachable"
  by (simp add: extract_mantras_def write_mantras_file_def Let_def split_beta
      unreachable_write_file split: option.splits sum.splits)

lemma extract_symbols_returns_iff:
  assumes "document w \<noteq> Unsearchable"
  shows "(\<exists>ok. fst (extract_symbols rt w) = Inr ok) \<longleftrightarrow> symbols_stage_ok w"
proof (cases "document w")
  case (Loaded data)
  show ?thesis
  proof (cases "truthy data")
    case True
    show ?thesis
    proof (cases "gather_all_symbols data")
      case (Inl e)
      then have "\<not> symbols_gatherable data"
        using gather_all_symbols_returns_iff [of data] by simp
      with Loaded True Inl show ?thesis
        by (simp add: extract_symbols_def load_json_data_def symbols_stage_ok_def)
    next
      case (Inr symbols)
      then have "symbols_gatherable data"
        using gather_all_symbols_returns_iff [of data] by blast
      with Loaded True Inr show ?thesis
        by (auto simp: extract_symbols_def load_json_data_def symbols_stage_ok_def Let_def
            split_beta)
    qed
  next
    case False
    with Loaded show ?thesis
      by (auto simp: extract_symbols_def load_json_data_def symbols_stage_ok_def Let_def)
  qed
qed (use assms in \<open>auto simp: extract_symbols_def load_json_data_def symbols_stage_ok_def\<close>)

lemma extract_mantras_returns_iff:
  assumes "document w \<noteq> Unsearchable"
  shows "(\<exists>ok. fst (extract_mantras rt w) = Inr ok) \<longleftrightarrow> mantras_stage_ok w"
proof (cases "document w")
  case (Loaded data)
  show ?thesis
  proof (cases "truthy data")
    case True
    show ?thesis
    proof (cases "gather_all_mantras rt data")
      case (Inl e)
      then have "\<not> mantras_gatherable data"
        using gather_all_mantras_returns_iff [of rt data] by simp
      with Loaded True Inl show ?thesis
        by (simp add: extract_mantras_def load_json_data_def mantras_stage_ok_def)
    next
      case (Inr mantras)
      then have "mantras_gatherable data"
        using gather_all_mantras_returns_iff [of rt data] by blast
      with Loaded True Inr show ?thesis
        by (auto simp: extract_mantras_def load_json_data_def mantras_stage_ok_def Let_def
            split_beta)
    qed
  next
    case False
    with Loaded show ?thesis
      by (auto simp: extract_mantras_def load_json_data_def mantras_stage_ok_def Let_def)
  qed
qed (use assms in \<open>auto simp: extract_mantras_def load_json_data_def mantras_stage_ok_def\<close>)

lemma load_extracted_content_returns:
  "files w name \<noteq> Some Unreachable \<Longrightarrow> \<exists>content. load_extracted_content rt w name = Inr content"
  by (auto simp: load_extracted_content_def path_exists_def split: option.splits fentry.splits
      sum.splits)

lemma generate_chant_returns:
  assumes "files w ''symboles_extraits.txt'' \<noteq> Some Unreachable"
    and "files w ''mantras_extraits.txt'' \<noteq> Some Unreachable"
  shows "\<exists>ok. fst (generate_chant rt w) = Inr ok"
proof -
  let ?w = "log_info (Starting Chant) w"
  from assms obtain a b where
    "load_extracted_content rt ?w ''symboles_extraits.txt'' = Inr a"
    "load_extracted_content rt ?w ''mantras_extraits.txt'' = Inr b"
    using load_extracted_content_returns [of ?w "''symboles_extraits.txt''" rt]
      load_extracted_content_returns [of ?w "''mantras_extraits.txt''" rt]
    by auto
  then show ?thesis
    by (auto simp: generate_chant_def Let_def split_beta)
qed

lemma run_complete_ritual_returns_iff:
  assumes doc: "document w \<noteq> Unsearchable"
    and s: "files w ''symboles_extraits.txt'' \<noteq> Some Unreachable"
    and m: "files w ''mantras_extraits.txt'' \<noteq> Some Unreachable"
  shows "(\<exists>ok. fst (run_complete_ritual rt w) = Inr ok) \<longleftrightarrow>
           symbols_stage_ok w \<and> mantras_stage_ok w"
proof -
  let ?w0 = "log_info (Step Symbols) (log_info RitualBegin w)"
  obtain r1 w1 where s1: "extract_symbols rt ?w0 = (r1, w1)"
    by (cases "extract_symbols rt ?w0")
  have ok0: "symbols_stage_ok ?w0 = symbols_stage_ok w"
    by (simp add: symbols_stage_ok_def)
  have d1: "document w1 = document w"
    using document_extract_symbols [of rt ?w0] s1 by simp
  have f1: "files w1 n = Some Unreachable \<longleftrightarrow> files w n = Some Unreachable" for n
    using unreachable_extract_symbols [of rt ?w0 n] s1 by simp
  show ?thesis
  proof (cases r1)
    case (Inl e)
    with s1 have "\<not> (\<exists>ok. fst (extract_symbols rt ?w0) = Inr ok)" by simp
    then have "\<not> symbols_stage_ok w"
      using extract_symbols_returns_iff [of ?w0 rt] doc ok0 by simp
    with s1 Inl show ?thesis
      by (simp add: run_complete_ritual_def)
  next
    case (Inr ok1)
    with s1 have "\<exists>ok. fst (extract_symbols rt ?w0) = Inr ok" by simp
    then have sym: "symbols_stage_ok w"
      using extract_symbols_returns_iff [of ?w0 rt] doc ok0 by simp
    let ?w1 = "log_info (Step Mantras) (step_result Symbols ok1 w1)"
    obtain r2 w2 where s2: "extract_mantras rt ?w1 = (r2, w2)"
      by (cases "extract_mantras rt ?w1")
    have ok1: "mantras_stage_ok ?w1 = mantras_stage_ok w"
      by (simp add: mantras_stage_ok_def d1)
    have f2: "files w2 n = Some Unreachable \<longleftrightarrow> files w n = Some Unreachable" for n
      using unreachable_extract_mantras [of rt ?w1 n] s2 f1 [of n] by simp
    show ?thesis
    proof (cases r2)
      case (Inl e)
      with s2 have "\<not> (\<exists>ok. fst (extract_mantras rt ?w1) = Inr ok)" by simp
      then have "\<not> mantras_stage_ok w"
        using extract_mantras_returns_iff [of ?w1 rt] doc d1 ok1 by simp
      with s1 s2 Inl \<open>r1 = Inr ok1\<close> show ?thesis
        by (simp add: run_complete_ritual_def)
    next
      case (Inr ok2)
      with s2 have "\<exists>ok. fst (extract_mantras rt ?w1) = Inr ok" by simp
      then have man: "mantras_stage_ok w"
        using extract_mantras_returns_iff [of ?w1 rt] doc d1 ok1 by simp
      let ?w2 = "log_info (Step Chant) (step_result Mantras ok2 w2)"
      have "files ?w2 ''symboles_extraits.txt'' \<noteq> Some Unreachable"
        "files ?w2 ''mantras_extraits.txt'' \<noteq> Some Unreachable"
        using s m f2 by simp_all
      from generate_chant_returns [OF this, of rt] obtain ok3 w3 where
        s3: "generate_chant rt ?w2 = (Inr ok3, w3)"
        by (cases "generate_chant rt ?w2") auto
      have "\<exists>ok. fst (run_complete_ritual rt w) = Inr ok"
        using s1 s2 s3 \<open>r1 = Inr ok1\<close> Inr by (auto simp: run_complete_ritual_def)
      with sym man show ?thesis by simp
    qed
  qed
qed

lemma discard_returns: "\<exists>ok. fst r = Inr ok \<Longrightarrow> fst (discard r) = Inr ()"
  by (cases r) (auto simp: discard_def)

text \<open>
  C7, as the code has it. Take a run in which \<open>Path.exists\<close> answers for the document and
  for the two report files. Then \<open>extract_symbols\<close> returns a bool exactly when no document
  is loaded, or the document is falsy, or \<open>_gather_all_symbols\<close> raises nothing on it: the
  document is an object, \<open>symbolic_analysis\<close> is an object or absent, \<open>symbols\<close> and
  \<open>aesthetic_techniques\<close> can be iterated or are absent, and none of their elements is a
  list or an object. \<open>extract_mantras\<close> returns a bool exactly when no document is loaded,
  or it is falsy, or it is an object whose \<open>narrative_structures\<close> is an object or absent
  with \<open>mantras\<close> and \<open>techniques\<close> that can be iterated or are absent. \<open>generate_chant\<close>
  returns a bool for every document and every content of the files.
  \<open>run_complete_ritual\<close> returns a bool exactly when both extraction stages do, and \<open>main\<close>
  ends without an exception, for every argument vector, when both do and the constructor of
  \<open>LuxUtils\<close> succeeds.
\<close>

theorem C7_stages_return_bool:
  assumes "document w \<noteq> Unsearchable"
    and "files w ''symboles_extraits.txt'' \<noteq> Some Unreachable"
    and "files w ''mantras_extraits.txt'' \<noteq> Some Unreachable"
  shows "((\<exists>ok. fst (extract_symbols rt w) = Inr ok) \<longleftrightarrow> symbols_stage_ok w) \<and>
         ((\<exists>ok. fst (extract_mantras rt w) = Inr ok) \<longleftrightarrow> mantras_stage_ok w) \<and>
         (\<exists>ok. fst (generate_chant rt w) = Inr ok) \<and>
         ((\<exists>ok. fst (run_complete_ritual rt w) = Inr ok) \<longleftrightarrow>
            symbols_stage_ok w \<and> mantras_stage_ok w) \<and>
         (symbols_stage_ok w \<and> mantras_stage_ok w \<and> log_file_opens w \<and> outputs_dir_ready w \<longrightarrow>
            fst (main rt argv w) = Inr ())"
proof -
  note sym = extract_symbols_returns_iff [OF assms(1), of rt]
  note man = extract_mantras_returns_iff [OF assms(1), of rt]
  note chant = generate_chant_returns [OF assms(2,3), of rt]
  note run = run_complete_ritual_returns_iff [OF assms, of rt]
  have "fst (main rt argv w) = Inr ()"
    if "symbols_stage_ok w" "mantras_stage_ok w" "log_file_opens w" "outputs_dir_ready w"
  proof -
    have init: "lux_utils_init w = Inr ()" "fractura_orchestrator_init w = Inr ()"
      using that(3,4) by (simp_all add: fractura_orchestrator_init_def lux_utils_init_def)
    have "fst (discard (extract_symbols rt w)) = Inr ()"
      "fst (discard (extract_mantras rt w)) = Inr ()"
      "fst (discard (generate_chant rt w)) = Inr ()"
      "fst (discard (run_complete_ritual rt w)) = Inr ()"
      using sym man chant run that(1,2) by (simp_all add: discard_returns)
    then show ?thesis
      by (simp add: main_def Let_def init)
  qed
  with sym man chant run show ?thesis by blast
qed

lemma sample_document_stages_ok:
  "symbols_stage_ok (empty_world\<lparr>document := Loaded sample_document\<rparr>)"
  "mantras_stage_ok (empty_world\<lparr>document := Loaded sample_document\<rparr>)"
  by (simp_all add: symbols_stage_ok_def mantras_stage_ok_def sample_document_def
      symbols_gatherable_def mantras_gatherable_def entry_or_def iterable_def elements_def
      hashable_def str_def)

theorem C7_stages_return_bool_witness:
  "document (empty_world\<lparr>document := Loaded sample_document\<rparr>) \<noteq> Unsearchable \<and>
   files (empty_world\<lparr>document := Loaded sample_document\<rparr>) ''symboles_extraits.txt'' \<noteq>
     Some Unreachable \<and>
   files (empty_world\<lparr>document := Loaded sample_document\<rparr>) ''mantras_extraits.txt'' \<noteq>
     Some Unreachable \<and>
   symbols_stage_ok (empty_world\<lparr>document := Loaded sample_document\<rparr>) \<and>
   mantras_stage_ok (empty_world\<lparr>document := Loaded sample_document\<rparr>) \<and>
   log_file_opens (empty_world\<lparr>document := Loaded sample_document\<rparr>) \<and>
   outputs_dir_ready (empty_world\<lparr>document := Loaded sample_document\<rparr>) \<and>
   (\<exists>ok. fst (extract_symbols ascii_runtime
      (empty_world\<lparr>document := Loaded sample_document\<rparr>)) = Inr ok) \<and>
   (\<exists>ok. fst (extract_mantras ascii_runtime
      (empty_world\<lparr>document := Loaded sample_document\<rparr>)) = Inr ok) \<and>
   (\<exists>ok. fst (run_complete_ritual ascii_runtime
      (empty_world\<lparr>document := Loaded sample_document\<rparr>)) = Inr ok) \<and>
   fst (main ascii_runtime [str ''fractura.py'', str ''ritual'']
      (empty_world\<lparr>document := Loaded sample_document\<rparr>)) = Inr ()"
proof -
  let ?w = "empty_world\<lparr>document := Loaded sample_document\<rparr>"
  have h: "document ?w \<noteq> Unsearchable"
    "files ?w ''symboles_extraits.txt'' \<noteq> Some Unreachable"
    "files ?w ''mantras_extraits.txt'' \<noteq> Some Unreachable"
    by (simp_all add: empty_world_def)
  have i: "log_file_opens ?w" "outputs_dir_ready ?w"
    by (simp_all add: empty_world_def)
  from C7_stages_return_bool [OF h, of ascii_runtime "[str ''fractura.py'', str ''ritual'']"]
    sample_document_stages_ok h i
  show ?thesis by blast
qed

lemma gather_mistyped: "gather_all_symbols mistyped_document = Inl TypeError"
  by (simp add: gather_all_symbols_def mistyped_document_def py_get_def py_iter_def str_def)

lemma truthy_mistyped: "truthy mistyped_document"
  by (simp add: truthy_def mistyped_document_def)

lemma extract_symbols_mistyped:
  "document w = Loaded mistyped_document \<Longrightarrow>
     extract_symbols rt w = (Inl TypeError, log_info (Starting Symbols) w)"
  by (simp add: extract_symbols_def load_json_data_def gather_mistyped Let_def truthy_mistyped)

text \<open>
  C7 as stated fails: with the document \<open>{"symbolic_analysis": {"symbols": 5}}\<close> the call
  \<open>all_symbols.extend(symbols)\<close> raises \<open>TypeError\<close> outside every \<open>try\<close>, and the
  exception leaves \<open>extract_symbols\<close>, \<open>run_complete_ritual\<close> and \<open>main\<close>.
\<close>

theorem C7_counterexample:
  "fst (extract_symbols ascii_runtime (empty_world\<lparr>document := Loaded mistyped_document\<rparr>)) =
     Inl TypeError \<and>
   fst (run_complete_ritual ascii_runtime
          (empty_world\<lparr>document := Loaded mistyped_document\<rparr>)) = Inl TypeError \<and>
   fst (main ascii_runtime [str ''fractura.py'']
          (empty_world\<lparr>document := Loaded mistyped_document\<rparr>)) = Inl TypeError"
  by (simp add: extract_symbols_mistyped run_complete_ritual_def main_def discard_def
      fractura_orchestrator_init_def lux_utils_init_def empty_world_def)

section \<open>A complete run on the sample document\<close>

lemma gather_sample:
  "gather_all_symbols sample_document = Inr (map JStr [str ''Phi'', str ''Psi''])"
  "gather_all_mantras rt sample_document = Inr (map JStr [str ''om''])"
  by (simp_all add: gather_all_symbols_def gather_all_mantras_def sample_document_def py_get_def
      py_iter_def truthy_def hashable_def str_def)

lemma truthy_sample: "truthy sample_document"
  by (simp add: truthy_def sample_document_def)

lemma sample_lines_safe:
  "list_all report_safe [str ''Phi'', str ''Psi'']" "list_all report_safe [str ''om'']"
  by (simp_all add: report_safe_def str_def isspace_def no_line_break_def encodable_def)

lemma safe_encodable:
  "list_all report_safe L \<Longrightarrow> list_all (\<lambda>entry. encodable (py_format rt entry)) (map JStr L)"
  by (simp add: list_all_iff report_safe_def py_format_def)

lemma load_text:
  assumes "files w name = Some (Text (concat (map (\<lambda>l. l @ nl)
      (report_lines title tail rt t (map JStr L)))))"
    and "knows_ascii_digits rt" and "list_all report_safe L"
    and "\<not> isspace (hd title)" "\<not> isspace (last title)" "begins_with_marker title"
      "no_line_break title" "no_line_break tail"
  shows "load_extracted_content rt w name = Inr L"
proof -
  have "load_extracted_content rt w name = Inr (content_loop rt [] (readlines (concat
      (map (\<lambda>l. l @ nl) (report_lines title tail rt t (map JStr L))))))"
    using assms(1) by (simp add: load_extracted_content_def path_exists_def open_readlines_def)
  also have "\<dots> = Inr L"
    using report_lines_read [OF assms(2-8)] by simp
  finally show ?thesis .
qed

lemma chant_written:
  assumes "files w target \<noteq> Some Denied" and "files w target \<noteq> Some Unreachable"
    and "list_all encodable content"
  shows "fst (write_chant_file content target w)"
proof -
  have lines: "list_all encodable (map (\<lambda>line. line @ nl) content)"
    using assms(3) by (simp add: list_all_iff nl_encodable)
  have "encodable (strftime (now w))"
    by (rule plain_chars(1) [OF strftime_plain])
  then have chunks: "list_all encodable
      ([[0x1F50A] @ str '' CHANT GLITCH'' @ [0xC9] @ str '' SACR'' @ [0xC9] @ str '' '' @
           [0x2013] @ str '' FRACTURA.'' @ [0x394] @ str ''02'' @ nl,
         replicate 60 61 @ nl,
         str ''Par la Fracture vient la Vue'' @ nl,
         str ''Lux contre Spectaculum'' @ nl,
         replicate 60 61 @ nl @ nl,
         str ''G'' @ [0xE9] @ str ''n'' @ [0xE9] @ str ''r'' @ [0xE9] @ str '' le: '' @
           strftime (now w) @ nl,
         [0xC9] @ str ''l'' @ [0xE9] @ str ''ments fusionn'' @ [0xE9] @ str ''s: '' @
           decimal (length content) @ nl @ nl,
         str ''--- INVOCATION ---'' @ nl @ nl] @
        map (\<lambda>line. line @ nl) content @
        [nl @ str ''--- FIN DE L'' @ [39] @ str ''INVOCATION ---'' @ nl,
         str ''FRACTURA.'' @ [0x394] @ str ''02 // Luxcordia.EXE'' @ nl])"
    using lines decimal_plain(2) [of "length content"] nl_encodable
    by (simp add: str_def) (auto simp: encodable_def list_all_iff)
  show ?thesis
    unfolding write_chant_file_def write_file_ok [OF assms(1,2) chunks] by simp
qed

lemma fusion_of_sample:
  "fst (create_glitched_fusion [] ([str ''Phi'', str ''Psi''] @ [str ''om''])) =
     [[0x263F] @ str '' Psi '' @ [0x263F], [0x263F, 0x2604] @ str '' om'',
      str ''Phi '' @ [0x2606]]"
  by (simp add: create_glitched_fusion_def shuffle_def randbelow_def apply_glitch_effects_def
      enumerate_eq_zip glitch_effect_def glitch_symbols_def Let_def upt_rec str_def)

lemma fusion_of_sample_encodable:
  "list_all encodable (fst (create_glitched_fusion [] ([str ''Phi'', str ''Psi''] @ [str ''om''])))"
  unfolding fusion_of_sample by (simp add: encodable_def str_def)

lemma ritual_on_sample_document:
  assumes doc: "document w = Loaded sample_document"
    and files: "files w = (\<lambda>name. None)" and rng: "rng w = []"
    and digits: "knows_ascii_digits rt"
  shows "\<exists>w1 w2 w3.
           extract_symbols rt (log_info (Step Symbols) (log_info RitualBegin w)) = (Inr True, w1) \<and>
           extract_mantras rt (log_info (Step Mantras) (step_result Symbols True w1)) =
             (Inr True, w2) \<and>
           generate_chant rt (log_info (Step Chant) (step_result Mantras True w2)) = (Inr True, w3)"
proof -
  let ?S = "''symboles_extraits.txt''" and ?M = "''mantras_extraits.txt''"
  let ?tail = "str '' '' @ [0xE9] @ str ''l'' @ [0xE9] @ str ''ments narratifs''"
  let ?T1 = "concat (map (\<lambda>l. l @ nl)
      (report_lines symbols_title (str '' symboles'') rt (now w)
         (map JStr [str ''Phi'', str ''Psi''])))"
  let ?T2 = "concat (map (\<lambda>l. l @ nl)
      (report_lines mantras_title ?tail rt (now w) (map JStr [str ''om''])))"
  let ?a = "log_info (Starting Symbols) (log_info (Step Symbols) (log_info RitualBegin w))"
  let ?w1 = "?a\<lparr>files := (files ?a)(?S \<mapsto> Text ?T1)\<rparr>"
  let ?b = "log_info (Starting Mantras) (log_info (Step Mantras) (step_result Symbols True ?w1))"
  let ?w2 = "?b\<lparr>files := (files ?b)(?M \<mapsto> Text ?T2)\<rparr>"
  let ?c = "log_info (Starting Chant) (log_info (Step Chant) (step_result Mantras True ?w2))"
  have a: "document ?a = Loaded sample_document" "files ?a ?S \<noteq> Some Denied"
    "files ?a ?S \<noteq> Some Unreachable" "now ?a = now w"
    using doc files by (simp_all add: log_info_def)
  have s1: "extract_symbols rt (log_info (Step Symbols) (log_info RitualBegin w)) = (Inr True, ?w1)"
    using symbols_written [OF a(2,3) safe_encodable [OF sample_lines_safe(1)], of rt] a(1,4)
    by (simp add: extract_symbols_def load_json_data_def gather_sample truthy_sample Let_def)
  have b: "document ?b = Loaded sample_document" "files ?b ?M \<noteq> Some Denied"
    "files ?b ?M \<noteq> Some Unreachable" "now ?b = now w"
    using doc files by (simp_all add: log_info_def step_result_def)
  have s2: "extract_mantras rt (log_info (Step Mantras) (step_result Symbols True ?w1)) =
      (Inr True, ?w2)"
    using mantras_written [OF b(2,3) safe_encodable [OF sample_lines_safe(2)], of rt] b(1,4)
    by (simp add: extract_mantras_def load_json_data_def gather_sample truthy_sample Let_def)
  have c: "files ?c ?S = Some (Text ?T1)" "files ?c ?M = Some (Text ?T2)" "rng ?c = []"
    "files (?c\<lparr>rng := []\<rparr>) ''chant_glitch_fusion.txt'' \<noteq> Some Denied"
    "files (?c\<lparr>rng := []\<rparr>) ''chant_glitch_fusion.txt'' \<noteq> Some Unreachable"
    using files rng by (simp_all add: log_info_def step_result_def)
  have l1: "load_extracted_content rt ?c ?S = Inr [str ''Phi'', str ''Psi'']"
    using c(1) digits sample_lines_safe(1) symbols_title_plain(1-4) tails_plain(1)
    by (rule load_text)
  have l2: "load_extracted_content rt ?c ?M = Inr [str ''om'']"
    using c(2) digits sample_lines_safe(2) mantras_title_plain(1-4) tails_plain(3)
    by (rule load_text)
  have "fst (write_chant_file
      (fst (create_glitched_fusion [] ([str ''Phi'', str ''Psi''] @ [str ''om''])))
      ''chant_glitch_fusion.txt'' (?c\<lparr>rng := []\<rparr>))"
    using c(4,5) fusion_of_sample_encodable by (rule chant_written)
  then have "\<exists>w3. generate_chant rt (log_info (Step Chant) (step_result Mantras True ?w2)) =
      (Inr True, w3)"
    unfolding generate_chant_def Let_def l1 l2 c(3)
    by (simp add: split_beta create_glitched_fusion_def shuffle_def randbelow_def)
  with s1 s2 show ?thesis by blast
qed

lemma ritual_on_empty_world:
  "\<exists>w1 w2 w3.
     extract_symbols ascii_runtime (log_info (Step Symbols) (log_info RitualBegin empty_world)) =
       (Inr False, w1) \<and>
     extract_mantras ascii_runtime (log_info (Step Mantras) (step_result Symbols False w1)) =
       (Inr False, w2) \<and>
     generate_chant ascii_runtime (log_info (Step Chant) (step_result Mantras False w2)) =
       (Inr False, w3)"
proof -
  let ?w1 = "log_info (Starting Symbols) (log_info (Step Symbols) (log_info RitualBegin empty_world))"
  let ?w2 = "log_info (Starting Mantras) (log_info (Step Mantras) (step_result Symbols False ?w1))"
  let ?w3 = "log_info (Starting Chant) (log_info (Step Chant) (step_result Mantras False ?w2))"
  have h1: "extract_symbols ascii_runtime (log_info (Step Symbols) (log_info RitualBegin empty_world)) =
      (Inr False, ?w1)"
    by (rule stages_on_empty_world)
  have h2: "extract_mantras ascii_runtime (log_info (Step Mantras) (step_result Symbols False ?w1)) =
      (Inr False, ?w2)"
    by (rule stages_on_empty_world) (simp add: log_info_def step_result_def empty_world_def)
  have h3: "generate_chant ascii_runtime (log_info (Step Chant) (step_result Mantras False ?w2)) =
      (Inr False, ?w3)"
    by (rule stages_on_empty_world) (simp add: log_info_def step_result_def empty_world_def)
  from h1 h2 h3 show ?thesis by blast
qed

text \<open>With no document every stage fails and every stage runs; with the sample document
  and an empty outputs directory every stage succeeds.\<close>

theorem C6_ritual_runs_all_stages_witness:
  "fst (run_complete_ritual ascii_runtime empty_world) = Inr False \<and>
   logged (snd (run_complete_ritual ascii_runtime empty_world)) =
     [RitualBegin,
      Step Symbols, Starting Symbols, StepFailed Symbols,
      Step Mantras, Starting Mantras, StepFailed Mantras,
      Step Chant, Starting Chant, StepFailed Chant,
      RitualPartial 0] \<and>
   fst (run_complete_ritual ascii_runtime (empty_world\<lparr>document := Loaded sample_document\<rparr>)) =
     Inr True \<and>
   logged (snd (run_complete_ritual ascii_runtime
                  (empty_world\<lparr>document := Loaded sample_document\<rparr>))) =
     [RitualBegin,
      Step Symbols, Starting Symbols, StepSucceeded Symbols,
      Step Mantras, Starting Mantras, StepSucceeded Mantras,
      Step Chant, Starting Chant, StepSucceeded Chant,
      RitualComplete]"
proof -
  from ritual_on_empty_world obtain u1 u2 u3 where
    f1: "extract_symbols ascii_runtime (log_info (Step Symbols) (log_info RitualBegin empty_world)) =
      (Inr False, u1)" and
    f2: "extract_mantras ascii_runtime (log_info (Step Mantras) (step_result Symbols False u1)) =
      (Inr False, u2)" and
    f3: "generate_chant ascii_runtime (log_info (Step Chant) (step_result Mantras False u2)) =
      (Inr False, u3)"
    by blast
  note f = C6_ritual_runs_all_stages [OF f1 f2 f3]
  let ?w = "empty_world\<lparr>document := Loaded sample_document\<rparr>"
  have "document ?w = Loaded sample_document" "files ?w = (\<lambda>name. None)" "rng ?w = []"
    by (simp_all add: empty_world_def)
  from ritual_on_sample_document [OF this ascii_runtime_knows_digits] obtain w1 w2 w3 where
    t1: "extract_symbols ascii_runtime (log_info (Step Symbols) (log_info RitualBegin ?w)) =
      (Inr True, w1)" and
    t2: "extract_mantras ascii_runtime (log_info (Step Mantras) (step_result Symbols True w1)) =
      (Inr True, w2)" and
    t3: "generate_chant ascii_runtime (log_info (Step Chant) (step_result Mantras True w2)) =
      (Inr True, w3)"
    by blast
  note t = C6_ritual_runs_all_stages [OF t1 t2 t3]
  from f [THEN conjunct1] f [THEN conjunct2, THEN conjunct2]
    t [THEN conjunct1] t [THEN conjunct2, THEN conjunct2]
  show ?thesis
    by (simp add: empty_world_def)
qed

end
